theory Spec2Isabelle
  imports Main
begin

section \<open>JavaScript values\<close>

text \<open>
  The schema, the rules and the request data are plain JavaScript values. An object is
  an association list in the enumeration order of its own keys (the order of
  \<^verbatim>\<open>Object.keys\<close>); a well-formed object has distinct keys. Numbers are the
  integers of magnitude below ten to the power 21, which a template literal prints with all
  their digits; fractions, \<^verbatim>\<open>NaN\<close> and larger numbers are outside the model.
  Strings are lists of 8-bit characters.
\<close>

datatype jsvalue =
    JUndefined
  | JNull
  | JBool bool
  | JNum int
  | JStr string
  | JArr "jsvalue list"
  | JObj "(string \<times> jsvalue) list"

datatype js_error = TypeError | Error string

fun typeof :: "jsvalue \<Rightarrow> string" where
  "typeof JUndefined = ''undefined''"
| "typeof JNull = ''object''"
| "typeof (JBool b) = ''boolean''"
| "typeof (JNum n) = ''number''"
| "typeof (JStr s) = ''string''"
| "typeof (JArr xs) = ''object''"
| "typeof (JObj kvs) = ''object''"

fun truthy :: "jsvalue \<Rightarrow> bool" where
  "truthy JUndefined = False"
| "truthy JNull = False"
| "truthy (JBool b) = b"
| "truthy (JNum n) = (n \<noteq> 0)"
| "truthy (JStr s) = (s \<noteq> [])"
| "truthy (JArr xs) = True"
| "truthy (JObj kvs) = True"

fun isArray :: "jsvalue \<Rightarrow> bool" where
  "isArray (JArr xs) = True"
| "isArray v = False"

text \<open>Decimal rendering of numbers, as a template literal prints them.\<close>

definition digit_char :: "nat \<Rightarrow> char" where
  "digit_char d = ''0123456789'' ! d"

fun digits_of :: "nat \<Rightarrow> string" where
  "digits_of n = (if n < 10 then [digit_char n] else digits_of (n div 10) @ [digit_char (n mod 10)])"

declare digits_of.simps [simp del]

definition show_int :: "int \<Rightarrow> string" where
  "show_int i = (if i < 0 then CHR ''-'' # digits_of (nat (- i)) else digits_of (nat i))"

fun join_with :: "string \<Rightarrow> string list \<Rightarrow> string" where
  "join_with sep [] = []"
| "join_with sep [x] = x"
| "join_with sep (x # y # ys) = x @ sep @ join_with sep (y # ys)"

text \<open>
  \<^verbatim>\<open>String(v)\<close>, the conversion a template literal applies: an array joins its
  elements with commas, printing \<^verbatim>\<open>null\<close> and \<^verbatim>\<open>undefined\<close> elements as
  nothing.
\<close>

fun js_to_string :: "jsvalue \<Rightarrow> string" where
  "js_to_string JUndefined = ''undefined''"
| "js_to_string JNull = ''null''"
| "js_to_string (JBool b) = (if b then ''true'' else ''false'')"
| "js_to_string (JNum n) = show_int n"
| "js_to_string (JStr s) = s"
| "js_to_string (JArr xs) =
     join_with '','' (map (\<lambda>x. if x = JUndefined \<or> x = JNull then [] else js_to_string x) xs)"
| "js_to_string (JObj kvs) = ''[object Object]''"

text \<open>
  \<^verbatim>\<open>Object.entries\<close> of a value that is neither \<^verbatim>\<open>null\<close> nor
  \<^verbatim>\<open>undefined\<close>: an array and a string enumerate their indices.
\<close>

definition index_keys :: "nat \<Rightarrow> string list" where
  "index_keys n = map digits_of [0..<n]"

fun own_entries :: "jsvalue \<Rightarrow> (string \<times> jsvalue) list" where
  "own_entries (JObj kvs) = kvs"
| "own_entries (JArr xs) = zip (index_keys (length xs)) xs"
| "own_entries (JStr s) = zip (index_keys (length s)) (map (\<lambda>c. JStr [c]) s)"
| "own_entries v = []"

fun object_entries :: "jsvalue \<Rightarrow> js_error + (string \<times> jsvalue) list" where
  "object_entries JUndefined = Inl TypeError"
| "object_entries JNull = Inl TypeError"
| "object_entries v = Inr (own_entries v)"

fun object_keys :: "jsvalue \<Rightarrow> js_error + string list" where
  "object_keys JUndefined = Inl TypeError"
| "object_keys JNull = Inl TypeError"
| "object_keys v = Inr (map fst (own_entries v))"

text \<open>
  Reading a property \<^verbatim>\<open>v[k]\<close> or \<^verbatim>\<open>v?.k\<close>. Only own properties and the
  \<^verbatim>\<open>length\<close> of arrays and strings are modelled; none of the property names the
  program reads is inherited from a prototype.
\<close>

fun has_length :: "jsvalue \<Rightarrow> nat option" where
  "has_length (JArr xs) = Some (length xs)"
| "has_length (JStr s) = Some (length s)"
| "has_length v = None"

definition get_prop :: "jsvalue \<Rightarrow> string \<Rightarrow> jsvalue" where
  "get_prop v k =
     (case (if k = ''length'' then has_length v else None) of
        Some n \<Rightarrow> JNum (int n)
      | None \<Rightarrow> (case map_of (own_entries v) k of Some x \<Rightarrow> x | None \<Rightarrow> JUndefined))"

text \<open>The operator \<^verbatim>\<open>k in v\<close> for a value \<open>v\<close> of type object.\<close>

definition has_key :: "string \<Rightarrow> jsvalue \<Rightarrow> bool" where
  "has_key k v = ((k = ''length'' \<and> isArray v) \<or> k \<in> set (map fst (own_entries v)))"

text \<open>A measure for recursion through the entries of an object or an array.\<close>

definition entries_weight :: "(string \<times> jsvalue) list \<Rightarrow> nat" where
  "entries_weight es = sum_list (map (\<lambda>e. 2 * size (snd e) + 2) es)"

lemma entries_weight_Nil: "entries_weight [] = 0"
  by (simp add: entries_weight_def)

lemma entries_weight_Cons: "entries_weight ((k, v) # es) = 2 * size v + 2 + entries_weight es"
  by (simp add: entries_weight_def)

lemma zip_weight:
  "length ks = length xs \<Longrightarrow> entries_weight (zip ks xs) = sum_list (map (\<lambda>x. 2 * size x + 2) xs)"
  by (induction ks xs rule: list_induct2) (auto simp: entries_weight_def)

lemma own_entries_weight:
  "typeof obj = ''object'' \<Longrightarrow> entries_weight (own_entries obj) < Suc (2 * size obj)"
proof (cases obj)
  case (JArr xs)
  have "entries_weight (zip (index_keys (length xs)) xs) = sum_list (map (\<lambda>x. 2 * size x + 2) xs)"
    by (rule zip_weight) (simp add: index_keys_def)
  moreover have "sum_list (map (\<lambda>x. 2 * size x + 2) xs) = 2 * size_list size xs"
    by (induction xs) auto
  ultimately show ?thesis using JArr by simp
next
  case (JObj kvs)
  have "entries_weight kvs \<le> 2 * size_list (size_prod (\<lambda>x. 0) size) kvs"
    by (induction kvs) (auto simp: entries_weight_def)
  then show ?thesis using JObj by simp
qed (simp_all add: entries_weight_def)

section \<open>The schema meta-validator (class ApiSchemaValidator)\<close>

definition validDataTypes :: "string list" where
  "validDataTypes =
     [''int'', ''string'', ''array+number'', ''array+string'',
      ''array+mobile'', ''array+bool'', ''array+float'',
      ''date'', ''mobile'', ''bool'', ''alpha'',
      ''alphanumeric'', ''float'', ''email'']"

definition validProperties :: "string list" where
  "validProperties = [''required'', ''dataType'', ''regex'', ''min'', ''max'', ''length'', ''allowedValues'']"

definition quoted :: "string \<Rightarrow> string" where
  "quoted s = [CHR 0x27] @ s @ [CHR 0x27]"

text \<open>\<^verbatim>\<open>this.errors.push(msg)\<close> under a condition; the error list is the state.\<close>

definition push_when :: "bool \<Rightarrow> string \<Rightarrow> string list \<Rightarrow> string list" where
  "push_when c msg errors = (if c then errors @ [msg] else errors)"

definition unknown_properties :: "jsvalue \<Rightarrow> string \<Rightarrow> string list" where
  "unknown_properties rule path =
     map (\<lambda>key. path @ '': Unknown property '' @ quoted key)
       (filter (\<lambda>key. key \<notin> set validProperties) (map fst (own_entries rule)))"

definition validateValidationRule :: "jsvalue \<Rightarrow> string \<Rightarrow> string list \<Rightarrow> string list" where
  "validateValidationRule rule path errors =
     (if typeof rule \<noteq> ''object'' \<or> rule = JNull then errors @ [path @ '': Must be an object'']
      else
        (push_when (has_key ''allowedValues'' rule \<and> \<not> isArray (get_prop rule ''allowedValues''))
           (path @ '': '' @ quoted ''allowedValues'' @ '' must be an array'')
        (push_when (has_key ''length'' rule \<and> typeof (get_prop rule ''length'') \<noteq> ''number'')
           (path @ '': '' @ quoted ''length'' @ '' must be a number'')
        (push_when (has_key ''max'' rule \<and> typeof (get_prop rule ''max'') \<noteq> ''number'')
           (path @ '': '' @ quoted ''max'' @ '' must be a number'')
        (push_when (has_key ''min'' rule \<and> typeof (get_prop rule ''min'') \<noteq> ''number'')
           (path @ '': '' @ quoted ''min'' @ '' must be a number'')
        (push_when (has_key ''regex'' rule \<and> typeof (get_prop rule ''regex'') \<noteq> ''string'')
           (path @ '': '' @ quoted ''regex'' @ '' must be a string'')
        (push_when (has_key ''dataType'' rule \<and> typeof (get_prop rule ''dataType'') = ''string''
                      \<and> js_to_string (get_prop rule ''dataType'') \<notin> set validDataTypes)
           (path @ '': Invalid dataType '' @ quoted (js_to_string (get_prop rule ''dataType'')))
        (push_when (has_key ''required'' rule \<and> typeof (get_prop rule ''required'') \<noteq> ''boolean'')
           (path @ '': '' @ quoted ''required'' @ '' must be a boolean'')
        (errors @ unknown_properties rule path)))))))))"

definition isValidationRule :: "jsvalue \<Rightarrow> bool" where
  "isValidationRule obj =
     (truthy obj \<and> typeof obj = ''object'' \<and>
       (has_key ''dataType'' obj \<or> has_key ''required'' obj \<or> has_key ''regex'' obj \<or>
        has_key ''min'' obj \<or> has_key ''max'' obj \<or> has_key ''length'' obj \<or>
        has_key ''allowedValues'' obj))"

definition join_path :: "string \<Rightarrow> string \<Rightarrow> string" where
  "join_path path key = (if path \<noteq> [] then path @ ''.'' @ key else key)"

function validateNestedStructure :: "jsvalue \<Rightarrow> string \<Rightarrow> string list \<Rightarrow> string list"
  and validateEntries :: "(string \<times> jsvalue) list \<Rightarrow> string \<Rightarrow> string list \<Rightarrow> string list" where
  "validateNestedStructure obj path errors =
     (if typeof obj \<noteq> ''object'' \<or> obj = JNull then errors @ [path @ '': Must be an object'']
      else validateEntries (own_entries obj) path errors)"
| "validateEntries [] path errors = errors"
| "validateEntries ((key, val) # rest) path errors =
     validateEntries rest path
       (if isValidationRule val then validateValidationRule val (join_path path key) errors
        else if typeof val = ''object'' \<and> val \<noteq> JNull
          then validateNestedStructure val (join_path path key) errors
        else errors @ [join_path path key @ '': Invalid schema structure''])"
  by pat_completeness auto
termination
  by (relation "measure (\<lambda>x. case x of
         Inl (obj, path, errors) \<Rightarrow> 2 * size obj + 1
       | Inr (es, path, errors) \<Rightarrow> entries_weight es)")
     (auto simp: entries_weight_Cons own_entries_weight)

declare validateNestedStructure.simps [simp del]

text \<open>
  \<^verbatim>\<open>schemaValidator\<close> on a fresh validator. A \<^verbatim>\<open>return\<close> inside the
  \<^verbatim>\<open>forEach\<close> callback ends that route only; the loop goes on with the next one.
  The keys of an object are strings, so the test of the route's type never fails.
\<close>

fun validateRoutes :: "(string \<times> jsvalue) list \<Rightarrow> string list \<Rightarrow> string list" where
  "validateRoutes [] errors = errors"
| "validateRoutes ((route, routeSchema) # rest) errors =
     validateRoutes rest
       (if typeof routeSchema \<noteq> ''object'' \<or> routeSchema = JNull
          then errors @ [''Route '' @ quoted route @ '': Must contain an object of validation rules'']
        else validateNestedStructure routeSchema route errors)"

definition schemaValidator :: "jsvalue \<Rightarrow> bool \<times> string list" where
  "schemaValidator schema =
     (if typeof schema \<noteq> ''object'' \<or> schema = JNull then (False, [''Schema must be an object''])
      else let errors = validateRoutes (own_entries schema) [] in (errors = [], errors))"

definition validateSchema :: "jsvalue \<Rightarrow> bool" where
  "validateSchema apiSchema = fst (schemaValidator apiSchema)"

section \<open>Error messages (RequestValidator.errorMessageConstructor)\<close>

datatype validationErrorCode =
    MANDATORY_FIELD_ERROR
  | EMPTY_FIELD_ERROR
  | DATATYPE_ERROR
  | PATTERN_MATCHING_ERROR
  | MIN_MAX_ERROR
  | LENGTH_ERROR
  | ALLOWED_VALUE_ERROR
  | ARRAY_DATATYPE_ERROR

fun code_of :: "validationErrorCode \<Rightarrow> int" where
  "code_of MANDATORY_FIELD_ERROR = 0"
| "code_of EMPTY_FIELD_ERROR = 1"
| "code_of DATATYPE_ERROR = 2"
| "code_of PATTERN_MATCHING_ERROR = 3"
| "code_of MIN_MAX_ERROR = 4"
| "code_of LENGTH_ERROR = 5"
| "code_of ALLOWED_VALUE_ERROR = 6"
| "code_of ARRAY_DATATYPE_ERROR = 7"

record message =
  errorMsg :: string
  errorCode :: int

definition dateFormat :: string where
  "dateFormat = ''YYYY-MM-DD''"

text \<open>
  \<^verbatim>\<open>v == word\<close> for a literal \<open>word\<close> that is not numeric: a string compares by
  content, an array through its string conversion, everything else is different.
\<close>

fun loose_eq_word :: "jsvalue \<Rightarrow> string \<Rightarrow> bool" where
  "loose_eq_word (JStr s) word = (s = word)"
| "loose_eq_word (JArr xs) word = (js_to_string (JArr xs) = word)"
| "loose_eq_word v word = False"

text \<open>
  The message texts. \<^verbatim>\<open>const {min, max} = extra\<close> raises on \<^verbatim>\<open>null\<close> and
  \<^verbatim>\<open>undefined\<close>; the default value of \<open>extra\<close> is \<^verbatim>\<open>null\<close>.
\<close>

definition min_max_text :: "string \<Rightarrow> jsvalue \<Rightarrow> jsvalue \<Rightarrow> string" where
  "min_max_text field mn mx =
     (if truthy mn \<and> truthy mx
        then field @ '' should be in between '' @ js_to_string mn @ '' and '' @ js_to_string mx
      else if truthy mn
        then field @ '' should be in greater than or equal to '' @ js_to_string mn
      else field @ '' should be in less than or equal to '' @ js_to_string mx)"

definition errorMessageConstructor :: "string \<Rightarrow> int \<Rightarrow> jsvalue \<Rightarrow> js_error + message" where
  "errorMessageConstructor field code extra =
     (if code = code_of MANDATORY_FIELD_ERROR then
        Inr \<lparr>errorMsg = field @ '' : is mandatory'', errorCode = code\<rparr>
      else if code = code_of EMPTY_FIELD_ERROR then
        Inr \<lparr>errorMsg = (if loose_eq_word extra ''array''
                           then field @ '' : should not be an empty array''
                           else field @ '' : should not be empty''),
             errorCode = code\<rparr>
      else if code = code_of DATATYPE_ERROR then
        Inr \<lparr>errorMsg = (if extra = JStr ''email'' \<or> extra = JStr ''mobile''
                           then ''Invalid '' @ field
                         else if extra = JStr ''date''
                           then ''Invalid date ,'' @ field @ '' should be in '' @ dateFormat @ '' format''
                         else field @ '' should be '' @ js_to_string extra),
             errorCode = code\<rparr>
      else if code = code_of PATTERN_MATCHING_ERROR then
        Inr \<lparr>errorMsg = field @ '' should be in '' @ js_to_string extra @ '' format'', errorCode = code\<rparr>
      else if code = code_of MIN_MAX_ERROR then
        (if extra = JNull \<or> extra = JUndefined then Inl TypeError
         else Inr \<lparr>errorMsg = min_max_text field (get_prop extra ''min'') (get_prop extra ''max''),
                   errorCode = code\<rparr>)
      else if code = code_of LENGTH_ERROR then
        Inr \<lparr>errorMsg = ''length of '' @ field @ '' should be '' @ js_to_string extra, errorCode = code\<rparr>
      else if code = code_of ALLOWED_VALUE_ERROR then
        Inr \<lparr>errorMsg = ''Allowed values for '' @ field @ '' are '' @ js_to_string extra, errorCode = code\<rparr>
      else if code = code_of ARRAY_DATATYPE_ERROR then
        Inr \<lparr>errorMsg = field @ '' should be an array of '' @ js_to_string extra, errorCode = code\<rparr>
      else Inr \<lparr>errorMsg = ''Unexpected validation error'', errorCode = code\<rparr>)"

section \<open>Validation chains\<close>

text \<open>
  A chain of the validation library is the field it is bound to, the validators and
  sanitizers added to it so far, in order, and whether it was marked optional. Each
  validator carries the message attached to it, if any. The callbacks passed to
  \<^verbatim>\<open>custom\<close> and \<^verbatim>\<open>customSanitizer\<close> are the program's own.
\<close>

datatype custom_check = ArrayNotEmpty | ArrayElementsTypeof jsvalue

datatype options = Options (opt_min: "jsvalue option") (opt_max: "jsvalue option")

datatype validator =
    Exists
  | NotEmpty
  | Custom custom_check
  | IsString
  | IsEmail
  | IsInt "options option"
  | IsFloat "options option"
  | IsAlphanumeric
  | IsAlpha
  | IsBoolean
  | IsMobilePhone string
  | IsDate string
  | IsArray
  | Matches jsvalue
  | IsLength jsvalue jsvalue
  | IsIn jsvalue

datatype sanitizer = TrimText | NormalizeEmail | ToInt | ToFloat | ToBoolean

datatype item = Validator validator "message option" | Sanitizer sanitizer

record chain =
  field :: string
  items :: "item list"
  optional :: bool

definition body :: "string \<Rightarrow> chain" where
  "body f = \<lparr>field = f, items = [], optional = False\<rparr>"

definition add_validator :: "validator \<Rightarrow> chain \<Rightarrow> chain" where
  "add_validator v c = c\<lparr>items := items c @ [Validator v None]\<rparr>"

definition add_sanitizer :: "sanitizer \<Rightarrow> chain \<Rightarrow> chain" where
  "add_sanitizer s c = c\<lparr>items := items c @ [Sanitizer s]\<rparr>"

definition set_optional :: "chain \<Rightarrow> chain" where
  "set_optional c = c\<lparr>optional := True\<rparr>"

text \<open>
  \<^verbatim>\<open>withMessage\<close> attaches the message to the validator added last, whatever
  sanitizers came after it; on a chain without a validator it raises. The message is
  computed first, so an error raised there wins.
\<close>

fun set_first_message :: "message \<Rightarrow> item list \<Rightarrow> item list option" where
  "set_first_message m [] = None"
| "set_first_message m (Validator v old # rest) = Some (Validator v (Some m) # rest)"
| "set_first_message m (Sanitizer s # rest) = map_option ((#) (Sanitizer s)) (set_first_message m rest)"

definition withMessage :: "js_error + message \<Rightarrow> chain \<Rightarrow> js_error + chain" where
  "withMessage msg c =
     (case msg of
        Inl e \<Rightarrow> Inl e
      | Inr m \<Rightarrow>
          (case set_first_message m (rev (items c)) of
             None \<Rightarrow> Inl TypeError
           | Some its \<Rightarrow> Inr (c\<lparr>items := rev its\<rparr>)))"

definition and_then :: "js_error + 'a \<Rightarrow> ('a \<Rightarrow> js_error + 'b) \<Rightarrow> js_error + 'b" where
  "and_then r f = (case r of Inl e \<Rightarrow> Inl e | Inr x \<Rightarrow> f x)"

section \<open>Compiling one rule into a chain (class RequestValidator)\<close>

definition message_for :: "string \<Rightarrow> validationErrorCode \<Rightarrow> jsvalue \<Rightarrow> js_error + message" where
  "message_for f kind extra = errorMessageConstructor f (code_of kind) extra"

definition applyMandatoryFieldValidation :: "chain \<Rightarrow> jsvalue \<Rightarrow> string \<Rightarrow> js_error + chain" where
  "applyMandatoryFieldValidation myBody mandatoryRule f =
     (if truthy mandatoryRule then
        and_then (withMessage (message_for f MANDATORY_FIELD_ERROR JNull) (add_validator Exists myBody)) (\<lambda>c1.
        and_then (withMessage (message_for f EMPTY_FIELD_ERROR JNull) (add_validator NotEmpty c1)) (\<lambda>c2.
        withMessage (message_for f EMPTY_FIELD_ERROR (JStr ''array''))
          (add_validator (Custom ArrayNotEmpty) c2)))
      else Inr (set_optional myBody))"

definition applyArrayValidation :: "chain \<Rightarrow> jsvalue \<Rightarrow> string \<Rightarrow> js_error + chain" where
  "applyArrayValidation myBody dataType f =
     and_then (withMessage (message_for f DATATYPE_ERROR (JStr ''array'')) (add_validator IsArray myBody)) (\<lambda>c1.
       if dataType \<noteq> JStr []
         then withMessage (message_for f ARRAY_DATATYPE_ERROR dataType)
                (add_validator (Custom (ArrayElementsTypeof dataType)) c1)
       else Inr c1)"

text \<open>
  \<^verbatim>\<open>s.split(c)\<close>: the pieces of \<open>s\<close> between the occurrences of \<open>c\<close>. There is
  always a first piece, so the result is that piece and the list of the others.
\<close>

fun js_split :: "char \<Rightarrow> string \<Rightarrow> string \<times> string list" where
  "js_split c [] = ([], [])"
| "js_split c (x # xs) =
     (if x = c then ([], fst (js_split c xs) # snd (js_split c xs))
      else (x # fst (js_split c xs), snd (js_split c xs)))"

definition second_piece :: "string \<times> string list \<Rightarrow> jsvalue" where
  "second_piece ps = (case snd ps of [] \<Rightarrow> JUndefined | q # qs \<Rightarrow> JStr q)"

text \<open>
  \<^verbatim>\<open>dataType.includes('+')\<close> and \<^verbatim>\<open>dataType.split('+')\<close>: a string has both
  methods, an array only the first, every other value neither.
\<close>

fun includes_plus :: "jsvalue \<Rightarrow> js_error + bool" where
  "includes_plus (JStr s) = Inr (CHR ''+'' \<in> set s)"
| "includes_plus (JArr xs) = Inr (JStr ''+'' \<in> set xs)"
| "includes_plus v = Inl TypeError"

fun split_plus :: "jsvalue \<Rightarrow> js_error + jsvalue \<times> jsvalue" where
  "split_plus (JStr s) = Inr (JStr (fst (js_split CHR ''+'' s)), second_piece (js_split CHR ''+'' s))"
| "split_plus v = Inl TypeError"

text \<open>
  The table \<^verbatim>\<open>dataTypeHandlers\<close>, looked up by the string form of the data type.
  Only the table's own ten keys are modelled; a name inherited from the prototype of
  the table is none of the data types the meta-validator accepts.
\<close>

definition dataTypeHandlers :: "string \<Rightarrow> jsvalue \<Rightarrow> string \<Rightarrow> chain \<Rightarrow> js_error + chain" where
  "dataTypeHandlers key arrayDataType f myBody =
     (if key = ''string'' then Inr (add_validator IsString myBody)
      else if key = ''email'' then Inr (add_sanitizer NormalizeEmail (add_validator IsEmail myBody))
      else if key = ''int'' then Inr (add_sanitizer ToInt (add_validator (IsInt None) myBody))
      else if key = ''float'' then Inr (add_sanitizer ToFloat (add_validator (IsFloat None) myBody))
      else if key = ''alphanumeric'' then Inr (add_validator IsAlphanumeric myBody)
      else if key = ''alpha'' then Inr (add_validator IsAlpha myBody)
      else if key = ''bool'' then Inr (add_sanitizer ToBoolean (add_validator IsBoolean myBody))
      else if key = ''mobile'' then Inr (add_validator (IsMobilePhone ''en-IN'') myBody)
      else if key = ''date'' then Inr (add_validator (IsDate dateFormat) myBody)
      else if key = ''array'' then applyArrayValidation myBody arrayDataType f
      else Inr myBody)"

definition applyDataTypeValidation :: "chain \<Rightarrow> jsvalue \<Rightarrow> string \<Rightarrow> js_error + chain" where
  "applyDataTypeValidation myBody dataType f =
     and_then (includes_plus dataType) (\<lambda>plus.
     and_then (if plus then split_plus dataType else Inr (dataType, JStr [])) (\<lambda>(dataType', arrayDataType).
     and_then (dataTypeHandlers (js_to_string dataType') arrayDataType f (add_sanitizer TrimText myBody)) (\<lambda>c1.
       if dataType' \<noteq> JStr ''array''
         then withMessage (message_for f DATATYPE_ERROR dataType') c1
       else Inr c1)))"

definition applyRegexValidation :: "chain \<Rightarrow> jsvalue \<Rightarrow> string \<Rightarrow> js_error + chain" where
  "applyRegexValidation myBody pattern f =
     withMessage (message_for f PATTERN_MATCHING_ERROR pattern) (add_validator (Matches pattern) myBody)"

definition range_options :: "jsvalue \<Rightarrow> jsvalue \<Rightarrow> options" where
  "range_options mn mx =
     Options (if truthy mn then Some mn else None) (if truthy mx then Some mx else None)"

definition applyMinMaxValidation :: "chain \<Rightarrow> string \<Rightarrow> jsvalue \<Rightarrow> jsvalue \<Rightarrow> jsvalue \<Rightarrow> js_error + chain" where
  "applyMinMaxValidation myBody f dataType mn mx =
     withMessage (message_for f MIN_MAX_ERROR (JObj [(''min'', mn), (''max'', mx)]))
       (if loose_eq_word dataType ''int''
          then add_validator (IsInt (Some (range_options mn mx))) myBody
        else add_validator (IsFloat (Some (range_options mn mx))) myBody)"

definition applyLengthValidation :: "chain \<Rightarrow> string \<Rightarrow> jsvalue \<Rightarrow> js_error + chain" where
  "applyLengthValidation myBody f len =
     withMessage (message_for f LENGTH_ERROR len) (add_validator (IsLength len len) myBody)"

definition applyAllowedValueValidation :: "chain \<Rightarrow> string \<Rightarrow> jsvalue \<Rightarrow> js_error + chain" where
  "applyAllowedValueValidation myBody f allowedAvalues =
     withMessage (message_for f ALLOWED_VALUE_ERROR allowedAvalues) (add_validator (IsIn allowedAvalues) myBody)"

text \<open>
  The body of the loop of \<^verbatim>\<open>expressRuleBuilder\<close> for a node taken as a rule, from
  \<^verbatim>\<open>body(fullField)\<close> to the chain handed to \<^verbatim>\<open>validateField\<close>. The rule is
  read with \<^verbatim>\<open>rule?.k\<close>, which gives \<^verbatim>\<open>undefined\<close> on \<^verbatim>\<open>null\<close> and
  \<^verbatim>\<open>undefined\<close>, except for \<^verbatim>\<open>rule.required\<close>, which raises there. In
  \<^verbatim>\<open>a || b && c\<close> the conjunction binds tighter.
\<close>

definition read_property :: "jsvalue \<Rightarrow> string \<Rightarrow> js_error + jsvalue" where
  "read_property v k = (if v = JNull \<or> v = JUndefined then Inl TypeError else Inr (get_prop v k))"

definition ruleChain :: "string \<Rightarrow> jsvalue \<Rightarrow> js_error + chain" where
  "ruleChain fullField rule =
     (let dataType = get_prop rule ''dataType'' in
      and_then (read_property rule ''required'') (\<lambda>required.
      and_then (applyMandatoryFieldValidation (body fullField) required fullField) (\<lambda>c1.
      and_then (if truthy (get_prop rule ''dataType'')
                  then applyDataTypeValidation c1 dataType fullField else Inr c1) (\<lambda>c2.
      and_then (if truthy (get_prop rule ''regex'')
                  then applyRegexValidation c2 (get_prop rule ''regex'') fullField else Inr c2) (\<lambda>c3.
      and_then (if truthy (get_prop rule ''min'') \<or>
                   (truthy (get_prop rule ''max'') \<and> dataType \<in> {JStr ''int'', JStr ''float''})
                  then applyMinMaxValidation c3 fullField dataType (get_prop rule ''min'') (get_prop rule ''max'')
                else Inr c3) (\<lambda>c4.
      and_then (if truthy (get_prop rule ''length'') \<and> dataType = JStr ''string''
                  then applyLengthValidation c4 fullField (get_prop rule ''length'') else Inr c4) (\<lambda>c5.
      if truthy (get_prop rule ''allowedAvalues'')
        then applyAllowedValueValidation c5 fullField (get_prop rule ''allowedAvalues'')
      else Inr c5)))))))"

section \<open>Running a chain\<close>

text \<open>
  The validation library is a parameter: how a field path selects values in the request
  data, how sanitised values are written back, and what each of its validators and
  sanitizers does. What is fixed is the order of execution: the items of a chain run in
  the order they were added, each validator on the value the sanitizers before it have
  left, every failed validator reports its message, and an optional chain skips a value
  that is \<^verbatim>\<open>undefined\<close>. For a path that selects several values the messages are
  listed value by value; how the library interleaves them is not the program's, and
  what is stated about the order of the messages is stated of the list as reported.
\<close>

record library =
  select :: "string \<Rightarrow> jsvalue \<Rightarrow> jsvalue list"
  store :: "string \<Rightarrow> jsvalue list \<Rightarrow> jsvalue \<Rightarrow> jsvalue"
  holds :: "validator \<Rightarrow> jsvalue \<Rightarrow> bool"
  clean :: "sanitizer \<Rightarrow> jsvalue \<Rightarrow> jsvalue"

text \<open>The two callbacks of the program passed to \<^verbatim>\<open>custom\<close>.\<close>

fun custom_holds :: "custom_check \<Rightarrow> jsvalue \<Rightarrow> bool" where
  "custom_holds ArrayNotEmpty (JArr xs) = (xs \<noteq> [])"
| "custom_holds ArrayNotEmpty v = True"
| "custom_holds (ArrayElementsTypeof t) (JArr xs) = list_all (\<lambda>x. JStr (typeof x) = t) xs"
| "custom_holds (ArrayElementsTypeof t) v = False"

text \<open>
  The callback passed to \<^verbatim>\<open>customSanitizer\<close>: \<^verbatim>\<open>value.trim()\<close> on a string.
  The white space of the 8-bit character set is the tab, the line feed, the vertical
  tab, the form feed, the carriage return, the space and the no-break space.
\<close>

definition is_space :: "char \<Rightarrow> bool" where
  "is_space c = (c \<in> set [CHR 0x09, CHR 0x0A, CHR 0x0B, CHR 0x0C, CHR 0x0D, CHR 0x20, CHR 0xA0])"

definition js_trim :: "string \<Rightarrow> string" where
  "js_trim s = rev (dropWhile is_space (rev (dropWhile is_space s)))"

fun trim_text :: "jsvalue \<Rightarrow> jsvalue" where
  "trim_text (JStr s) = JStr (js_trim s)"
| "trim_text v = v"

fun check :: "library \<Rightarrow> validator \<Rightarrow> jsvalue \<Rightarrow> bool" where
  "check lib (Custom c) v = custom_holds c v"
| "check lib val v = holds lib val v"

fun sanitize :: "library \<Rightarrow> sanitizer \<Rightarrow> jsvalue \<Rightarrow> jsvalue" where
  "sanitize lib TrimText v = trim_text v"
| "sanitize lib s v = clean lib s v"

text \<open>
  One value through the items: the reported messages and the value left at the end. A
  validator without a message reports the library's default text, \<open>None\<close> here.
\<close>

fun run_items :: "library \<Rightarrow> item list \<Rightarrow> jsvalue \<Rightarrow> message option list \<times> jsvalue" where
  "run_items lib [] v = ([], v)"
| "run_items lib (Sanitizer s # rest) v = run_items lib rest (sanitize lib s v)"
| "run_items lib (Validator val msg # rest) v =
     ((if check lib val v then [] else [msg]) @ fst (run_items lib rest v), snd (run_items lib rest v))"

definition run_value :: "library \<Rightarrow> chain \<Rightarrow> jsvalue \<Rightarrow> message option list \<times> jsvalue" where
  "run_value lib c v = (if optional c \<and> v = JUndefined then ([], v) else run_items lib (items c) v)"

text \<open>\<^verbatim>\<open>rule.run(input)\<close> with \<^verbatim>\<open>result.array()\<close>, and the request data it leaves.\<close>

definition run :: "library \<Rightarrow> chain \<Rightarrow> jsvalue \<Rightarrow> message option list \<times> jsvalue" where
  "run lib c input =
     (let results = map (run_value lib c) (select lib (field c) input)
      in (concat (map fst results), store lib (field c) (map snd results) input))"

section \<open>Evaluating a rule tree\<close>

definition MAX_SAFE_INTEGER :: int where
  "MAX_SAFE_INTEGER = 9007199254740991"

text \<open>
  The loop of \<^verbatim>\<open>validateField\<close>, on the pair of \<open>errorCode\<close> and \<open>errorMsg\<close>. A
  default text has no \<open>errorCode\<close>, and the comparison with \<^verbatim>\<open>undefined\<close> is false.
\<close>

fun lowest_code :: "message option list \<Rightarrow> int \<times> string \<Rightarrow> int \<times> string" where
  "lowest_code [] st = st"
| "lowest_code (None # es) st = lowest_code es st"
| "lowest_code (Some m # es) st =
     lowest_code es (if errorCode m < fst st then (errorCode m, errorMsg m) else st)"

definition validateField :: "library \<Rightarrow> chain \<Rightarrow> jsvalue \<Rightarrow> string \<times> jsvalue" where
  "validateField lib rule input =
     (snd (lowest_code (fst (run lib rule input)) (MAX_SAFE_INTEGER, [])), snd (run lib rule input))"

text \<open>\<^verbatim>\<open>rule[Object.keys(rule)[0]]\<close>; a missing first key reads the property \<^verbatim>\<open>undefined\<close>.\<close>

definition first_key_value :: "jsvalue \<Rightarrow> js_error + jsvalue" where
  "first_key_value rule =
     (case object_keys rule of
        Inl e \<Rightarrow> Inl e
      | Inr ks \<Rightarrow> Inr (get_prop rule (case ks of [] \<Rightarrow> ''undefined'' | k # _ \<Rightarrow> k)))"

lemma first_key_value_object:
  "first_key_value rule = Inr v \<Longrightarrow> typeof v = ''object'' \<Longrightarrow> typeof rule = ''object'' \<and> rule \<noteq> JNull"
  by (cases rule)
     (auto simp: first_key_value_def get_prop_def index_keys_def
           split: option.splits list.splits if_splits dest!: map_of_SomeD set_zip_rightD)

fun tree_weight :: "jsvalue \<Rightarrow> nat" where
  "tree_weight (JStr s) = 2 * length s + 1"
| "tree_weight v = 2 * size v + 1"

lemma string_entries_weight:
  "entries_weight (zip (index_keys (length s)) (map (\<lambda>c. JStr [c]) s)) = 2 * length s"
proof -
  have "entries_weight (zip (index_keys (length s)) (map (\<lambda>c. JStr [c]) s)) =
        sum_list (map (\<lambda>x. 2 * size x + 2) (map (\<lambda>c. JStr [c]) s))"
    by (rule zip_weight) (simp add: index_keys_def)
  also have "\<dots> = 2 * length s"
    by (induction s) auto
  finally show ?thesis .
qed

lemma object_entries_weight:
  "object_entries rules = Inr es \<Longrightarrow> entries_weight es < tree_weight rules"
  using own_entries_weight [of rules]
  by (cases rules) (auto simp: string_entries_weight entries_weight_Nil)

lemma tree_weight_object: "typeof rule = ''object'' \<Longrightarrow> tree_weight rule = Suc (2 * size rule)"
  by (cases rule) auto

text \<open>
  \<^verbatim>\<open>expressRuleBuilder\<close> and its loop over the entries. The result is the message
  (empty for no failure) and the request data as the chains have left it.
\<close>

function expressRuleBuilder :: "library \<Rightarrow> jsvalue \<Rightarrow> jsvalue \<Rightarrow> string \<Rightarrow> js_error + string \<times> jsvalue"
  and ruleLoop :: "library \<Rightarrow> (string \<times> jsvalue) list \<Rightarrow> jsvalue \<Rightarrow> string \<Rightarrow> js_error + string \<times> jsvalue" where
  "expressRuleBuilder lib rules input prefix =
     (case object_entries rules of
        Inl e \<Rightarrow> Inl e
      | Inr es \<Rightarrow> ruleLoop lib es input prefix)"
| "ruleLoop lib [] input prefix = Inr ([], input)"
| "ruleLoop lib ((f, rule) # rest) input prefix =
     (case first_key_value rule of
        Inl e \<Rightarrow> Inl e
      | Inr v \<Rightarrow>
          if typeof v = ''object'' then
            (case expressRuleBuilder lib rule input (join_path prefix f) of
               Inl e \<Rightarrow> Inl e
             | Inr r \<Rightarrow> if fst r \<noteq> [] then Inr r else ruleLoop lib rest (snd r) prefix)
          else
            (case ruleChain (join_path prefix f) rule of
               Inl e \<Rightarrow> Inl e
             | Inr myBody \<Rightarrow>
                 if fst (validateField lib myBody input) \<noteq> [] then Inr (validateField lib myBody input)
                 else ruleLoop lib rest (snd (validateField lib myBody input)) prefix))"
  by pat_completeness auto

termination
  by (relation "measure (\<lambda>x. case x of
         Inl (lib, rules, input, prefix) \<Rightarrow> tree_weight rules
       | Inr (lib, es, input, prefix) \<Rightarrow> entries_weight es)")
     (auto simp: entries_weight_Cons object_entries_weight tree_weight_object
           dest!: first_key_value_object)

declare expressRuleBuilder.simps [simp del]

section \<open>Handling a request\<close>

text \<open>
  An entry of \<^verbatim>\<open>registeredRoutesRegex\<close>: the test of the compiled route pattern, and
  the rule tree of the route. The compiler of route patterns is external.
\<close>

record route_entry =
  regexp :: "string \<Rightarrow> bool"
  rules :: jsvalue

record request_validator =
  url :: string
  customValidationHandlers :: "(jsvalue \<Rightarrow> string) list"

definition RequestValidator :: "string \<Rightarrow> request_validator" where
  "RequestValidator u = \<lparr>url = fst (js_split CHR ''?'' u), customValidationHandlers = []\<rparr>"

fun findRules :: "route_entry list \<Rightarrow> string \<Rightarrow> jsvalue" where
  "findRules [] u = JStr []"
| "findRules (e # rest) u = (if regexp e u then rules e else findRules rest u)"

fun customValidator :: "(jsvalue \<Rightarrow> string) list \<Rightarrow> jsvalue \<Rightarrow> string" where
  "customValidator [] input = []"
| "customValidator (h # hs) input = (if h input \<noteq> [] then h input else customValidator hs input)"

text \<open>
  The object spread \<^verbatim>\<open>{...a, ...b, ...c}\<close>: the own entries of each source are
  assigned in turn; an assignment to a key already there replaces its value.
\<close>

fun set_property :: "string \<Rightarrow> jsvalue \<Rightarrow> (string \<times> jsvalue) list \<Rightarrow> (string \<times> jsvalue) list" where
  "set_property k v [] = [(k, v)]"
| "set_property k v ((k', v') # ps) = (if k' = k then (k, v) # ps else (k', v') # set_property k v ps)"

definition spread :: "(string \<times> jsvalue) list \<Rightarrow> jsvalue \<Rightarrow> (string \<times> jsvalue) list" where
  "spread acc src = foldl (\<lambda>ps e. set_property (fst e) (snd e) ps) acc (own_entries src)"

record request =
  req_body :: jsvalue
  req_query :: jsvalue
  req_params :: jsvalue

definition merged_input :: "request \<Rightarrow> (string \<times> jsvalue) list" where
  "merged_input req = spread (spread (spread [] (req_body req)) (req_query req)) (req_params req)"

text \<open>
  What \<^verbatim>\<open>validateRequest\<close> does with the request: hand it on, answer 400 with a
  validation message, or answer 400 with the message of an error caught on the way.
\<close>

datatype response = Next | Status400 string | Status400_caught js_error

definition validateRequest :: "library \<Rightarrow> route_entry list \<Rightarrow> request_validator \<Rightarrow> request \<Rightarrow> response" where
  "validateRequest lib registry this req =
     (let found = findRules registry (url this) in
      if typeof found = ''string''
        then Status400_caught (Error (''Invalid request.Conuld not find '' @ url this))
      else
        (case expressRuleBuilder lib found (JObj [(''body'', JObj (merged_input req))]) [] of
           Inl e \<Rightarrow> Status400_caught e
         | Inr r \<Rightarrow>
             (let errorMsg = (if fst r \<noteq> [] then fst r
                              else customValidator (customValidationHandlers this) (get_prop (snd r) ''body''))
              in if errorMsg = [] then Next else Status400 errorMsg)))"

text \<open>
  \<^verbatim>\<open>routesToRegex\<close> appends one entry per route of the schema, in the order of its
  keys; \<^verbatim>\<open>loadFile\<close> does so only for a schema the meta-validator accepts.
\<close>

definition routesToRegex :: "(string \<Rightarrow> string \<Rightarrow> bool) \<Rightarrow> jsvalue \<Rightarrow> route_entry list \<Rightarrow> route_entry list" where
  "routesToRegex pathToRegexp schema registry =
     registry @ map (\<lambda>route. \<lparr>regexp = pathToRegexp route, rules = get_prop schema route\<rparr>)
                  (map fst (own_entries schema))"

section \<open>The checks of a rule tree in traversal order\<close>

text \<open>
  The chains \<^verbatim>\<open>expressRuleBuilder\<close> would build for a tree, listed in the order of
  its traversal; where building raises, the entry is the error.
\<close>

function field_checks :: "jsvalue \<Rightarrow> string \<Rightarrow> (js_error + chain) list"
  and entries_checks :: "(string \<times> jsvalue) list \<Rightarrow> string \<Rightarrow> (js_error + chain) list" where
  "field_checks tree prefix =
     (case object_entries tree of
        Inl e \<Rightarrow> [Inl e]
      | Inr es \<Rightarrow> entries_checks es prefix)"
| "entries_checks [] prefix = []"
| "entries_checks ((f, rule) # rest) prefix =
     (case first_key_value rule of
        Inl e \<Rightarrow> [Inl e]
      | Inr v \<Rightarrow>
          if typeof v = ''object''
            then field_checks rule (join_path prefix f) @ entries_checks rest prefix
          else ruleChain (join_path prefix f) rule # entries_checks rest prefix)"
  by pat_completeness auto
termination
  by (relation "measure (\<lambda>x. case x of
         Inl (tree, prefix) \<Rightarrow> tree_weight tree
       | Inr (es, prefix) \<Rightarrow> entries_weight es)")
     (auto simp: entries_weight_Cons object_entries_weight tree_weight_object
           dest!: first_key_value_object)

declare field_checks.simps [simp del]

text \<open>
  Evaluating such a list: the first field that reports a message ends the evaluation,
  and so does the first error.
\<close>

fun first_failure :: "library \<Rightarrow> (js_error + chain) list \<Rightarrow> jsvalue \<Rightarrow> js_error + string \<times> jsvalue" where
  "first_failure lib [] input = Inr ([], input)"
| "first_failure lib (Inl e # cs) input = Inl e"
| "first_failure lib (Inr c # cs) input =
     (if fst (validateField lib c input) \<noteq> [] then Inr (validateField lib c input)
      else first_failure lib cs (snd (validateField lib c input)))"

text \<open>The request data after the chains of a list have run on it, one after the other.\<close>

fun input_after :: "library \<Rightarrow> chain list \<Rightarrow> jsvalue \<Rightarrow> jsvalue" where
  "input_after lib [] input = input"
| "input_after lib (c # cs) input = input_after lib cs (snd (run lib c input))"

section \<open>Notions used in the statements\<close>

text \<open>Every validator of a chain carries a message, and the message has the property.\<close>

definition all_messages :: "(message \<Rightarrow> bool) \<Rightarrow> item list \<Rightarrow> bool" where
  "all_messages P its = (\<forall>v mo. Validator v mo \<in> set its \<longrightarrow> (\<exists>m. mo = Some m \<and> P m))"

text \<open>A message \<^verbatim>\<open>validateField\<close> can pick and the caller can tell from no failure.\<close>

definition reportable :: "message \<Rightarrow> bool" where
  "reportable m = (errorMsg m \<noteq> [] \<and> errorCode m < MAX_SAFE_INTEGER)"

text \<open>The chains of a list report nothing, each on the data the ones before it left.\<close>

fun all_pass :: "library \<Rightarrow> chain list \<Rightarrow> jsvalue \<Rightarrow> bool" where
  "all_pass lib [] input = True"
| "all_pass lib (c # cs) input = (fst (run lib c input) = [] \<and> all_pass lib cs (snd (run lib c input)))"






text \<open>
  The kinds of failure the checks compiled for a rule can report, each with the payload
  its message is made of.
\<close>

fun may_report :: "jsvalue \<Rightarrow> validationErrorCode \<Rightarrow> jsvalue \<Rightarrow> bool" where
  "may_report rule MANDATORY_FIELD_ERROR extra = truthy (get_prop rule ''required'')"
| "may_report rule EMPTY_FIELD_ERROR extra = truthy (get_prop rule ''required'')"
| "may_report rule DATATYPE_ERROR extra = truthy (get_prop rule ''dataType'')"
| "may_report rule ARRAY_DATATYPE_ERROR extra = truthy (get_prop rule ''dataType'')"
| "may_report rule PATTERN_MATCHING_ERROR extra =
     (truthy (get_prop rule ''regex'') \<and> extra = get_prop rule ''regex'')"
| "may_report rule MIN_MAX_ERROR extra =
     ((truthy (get_prop rule ''min'') \<or>
        (truthy (get_prop rule ''max'') \<and> get_prop rule ''dataType'' \<in> {JStr ''int'', JStr ''float''})) \<and>
      extra = JObj [(''min'', get_prop rule ''min''), (''max'', get_prop rule ''max'')])"
| "may_report rule LENGTH_ERROR extra =
     (truthy (get_prop rule ''length'') \<and> get_prop rule ''dataType'' = JStr ''string'' \<and>
      extra = get_prop rule ''length'')"
| "may_report rule ALLOWED_VALUE_ERROR extra =
     (truthy (get_prop rule ''allowedAvalues'') \<and> extra = get_prop rule ''allowedAvalues'')"

text \<open>A bound that the rule has and that is not zero.\<close>

definition bound_given :: "jsvalue \<Rightarrow> string \<Rightarrow> bool" where
  "bound_given rule k = (has_key k rule \<and> get_prop rule k \<noteq> JNum 0)"

text \<open>
  The rules the meta-validator checks in a tree: the entries it takes for rules, and
  those of the subtrees it descends into.
\<close>

inductive checked_as_rule :: "jsvalue \<Rightarrow> jsvalue \<Rightarrow> bool" where
  here: "(key, val) \<in> set (own_entries tree) \<Longrightarrow> isValidationRule val \<Longrightarrow> checked_as_rule tree val"
| below: "(key, val) \<in> set (own_entries tree) \<Longrightarrow> \<not> isValidationRule val \<Longrightarrow>
          typeof val = ''object'' \<Longrightarrow> val \<noteq> JNull \<Longrightarrow> checked_as_rule val rule \<Longrightarrow>
          checked_as_rule tree rule"

text \<open>An error list that keeps all of an earlier one, in order, at its front.\<close>

definition extends :: "string list \<Rightarrow> string list \<Rightarrow> bool" where
  "extends errors errors' = (\<exists>new. errors' = errors @ new)"

text \<open>A rule whose data type is a string outside the list of the meta-validator.\<close>

definition invalid_dataType :: "jsvalue \<Rightarrow> bool" where
  "invalid_dataType rule =
     (has_key ''dataType'' rule \<and> typeof (get_prop rule ''dataType'') = ''string'' \<and>
      js_to_string (get_prop rule ''dataType'') \<notin> set validDataTypes)"

section \<open>A stand-in library for worked examples\<close>

text \<open>
  The examples below run the program against this small library. A field path without
  dots selects the property of that name in the body; nothing is written back; a
  field exists unless it is \<^verbatim>\<open>undefined\<close>; a missing value and the empty string
  are empty; the string and array tests look at the type of the value. Every other
  validator accepts, and every sanitizer of the library leaves the value as it is.
\<close>

fun sample_holds :: "validator \<Rightarrow> jsvalue \<Rightarrow> bool" where
  "sample_holds Exists v = (v \<noteq> JUndefined)"
| "sample_holds NotEmpty v = (v \<noteq> JUndefined \<and> v \<noteq> JNull \<and> v \<noteq> JStr [])"
| "sample_holds IsString v = (typeof v = ''string'')"
| "sample_holds IsArray v = isArray v"
| "sample_holds val v = True"

definition sample_library :: library where
  "sample_library =
     \<lparr>select = (\<lambda>path input. [get_prop (get_prop input ''body'') path]),
      store = (\<lambda>path vs input. input),
      holds = sample_holds,
      clean = (\<lambda>s v. v)\<rparr>"

section \<open>Route resolution\<close>

lemma fst_js_split: "fst (js_split c s) = takeWhile (\<lambda>x. x \<noteq> c) s"
  by (induction s) auto

lemma takeWhile_before_separator:
  "takeWhile (\<lambda>x. x \<noteq> c) (p @ c # q) = takeWhile (\<lambda>x. x \<noteq> c) p"
  by (induction p) auto

lemma findRules_first_match:
  "\<forall>e'\<in>set pre. \<not> regexp e' u \<Longrightarrow> regexp e u \<Longrightarrow> findRules (pre @ e # post) u = rules e"
  by (induction pre) auto

lemma findRules_no_match: "\<forall>e\<in>set registry. \<not> regexp e u \<Longrightarrow> findRules registry u = JStr []"
  by (induction registry) auto

text \<open>
  Claim C7. \<^verbatim>\<open>findRules\<close> scans the registry in registration order and returns the
  rule tree of the first entry whose pattern accepts the path, whatever entries follow
  it. When no entry accepts the path it returns the empty string, and
  \<^verbatim>\<open>validateRequest\<close> answers that request with status 400 and the text of the
  error it raised and caught; it is an answer to the request, not an uncaught error.
\<close>

theorem findRules_first_match_wins:
  "(registry = pre @ e # post \<and> (\<forall>e'\<in>set pre. \<not> regexp e' u) \<and> regexp e u
      \<longrightarrow> findRules registry u = rules e) \<and>
   ((\<forall>e'\<in>set registry. \<not> regexp e' (url this))
      \<longrightarrow> findRules registry (url this) = JStr [] \<and>
          validateRequest lib registry this req =
            Status400_caught (Error (''Invalid request.Conuld not find '' @ url this)))"
  by (auto simp: findRules_first_match findRules_no_match validateRequest_def)

theorem findRules_first_match_wins_witness:
  "findRules
     [\<lparr>regexp = (\<lambda>u. take 5 u = ''/api/''), rules = JObj [(''first'', JObj [(''required'', JBool True)])]\<rparr>,
      \<lparr>regexp = (\<lambda>u. u = ''/api/login''), rules = JObj [(''second'', JObj [(''required'', JBool True)])]\<rparr>]
     ''/api/login'' = JObj [(''first'', JObj [(''required'', JBool True)])] \<and>
   validateRequest sample_library
     [\<lparr>regexp = (\<lambda>u. u = ''/api/login''), rules = JObj [(''second'', JObj [(''required'', JBool True)])]\<rparr>]
     (RequestValidator ''/api/unknown'')
     \<lparr>req_body = JObj [], req_query = JObj [], req_params = JObj []\<rparr> =
     Status400_caught (Error ''Invalid request.Conuld not find /api/unknown'')"
  using findRules_first_match_wins
    [of "[\<lparr>regexp = (\<lambda>u. take 5 u = ''/api/''), rules = JObj [(''first'', JObj [(''required'', JBool True)])]\<rparr>,
          \<lparr>regexp = (\<lambda>u. u = ''/api/login''), rules = JObj [(''second'', JObj [(''required'', JBool True)])]\<rparr>]"
        "[]"
        "\<lparr>regexp = (\<lambda>u. take 5 u = ''/api/''), rules = JObj [(''first'', JObj [(''required'', JBool True)])]\<rparr>"
        "[\<lparr>regexp = (\<lambda>u. u = ''/api/login''), rules = JObj [(''second'', JObj [(''required'', JBool True)])]\<rparr>]"
        "''/api/login''"]
    findRules_first_match_wins
    [of "[\<lparr>regexp = (\<lambda>u. u = ''/api/login''), rules = JObj [(''second'', JObj [(''required'', JBool True)])]\<rparr>]"
        _ _ _ _ "RequestValidator ''/api/unknown''" sample_library
        "\<lparr>req_body = JObj [], req_query = JObj [], req_params = JObj []\<rparr>"]
  by (simp add: RequestValidator_def)

text \<open>
  Claim C10. The validator keeps of the request URL what comes before the first
  question mark, and route resolution sees nothing else: a URL with a query string
  appended resolves to the same rule tree as the URL without it.
\<close>

theorem query_string_ignored:
  "findRules registry (url (RequestValidator (p @ CHR ''?'' # q))) =
     findRules registry (url (RequestValidator p)) \<and>
   url (RequestValidator u) = takeWhile (\<lambda>c. c \<noteq> CHR ''?'') u"
  by (simp add: RequestValidator_def fst_js_split takeWhile_before_separator)

section \<open>The merged request data\<close>







section \<open>The messages of a compiled rule\<close>

lemma and_then_Inr: "and_then r g = Inr y \<longleftrightarrow> (\<exists>x. r = Inr x \<and> g x = Inr y)"
  by (cases r) (auto simp: and_then_def)

lemma withMessage_fresh:
  "withMessage (Inr m) (add_validator v c) = Inr (c\<lparr>items := items c @ [Validator v (Some m)]\<rparr>)"
  by (simp add: withMessage_def add_validator_def)

lemma withMessage_fresh_sanitized:
  "withMessage (Inr m) (add_sanitizer s (add_validator v c)) =
     Inr (c\<lparr>items := items c @ [Validator v (Some m), Sanitizer s]\<rparr>)"
  by (simp add: withMessage_def add_validator_def add_sanitizer_def)

lemma set_first_message_all:
  "set_first_message m its = Some its' \<Longrightarrow> all_messages P its \<Longrightarrow> P m \<Longrightarrow> all_messages P its'"
proof (induction m its arbitrary: its' rule: set_first_message.induct)
  case (1 m)
  then show ?case by simp
next
  case (2 m v old rest)
  then show ?case by (auto simp: all_messages_def)
next
  case (3 m s rest)
  then show ?case by (auto simp: all_messages_def)
qed

lemma all_messages_rev: "all_messages P (rev its) = all_messages P its"
  by (simp add: all_messages_def)

lemma withMessage_all:
  assumes "withMessage (Inr m) c = Inr c'" "all_messages P (items c)" "P m"
  shows "all_messages P (items c')"
proof -
  from assms(1) obtain its where its: "set_first_message m (rev (items c)) = Some its" "c' = c\<lparr>items := rev its\<rparr>"
    by (auto simp: withMessage_def split: option.splits)
  from set_first_message_all [OF its(1)] assms(2,3) have "all_messages P its"
    by (simp add: all_messages_rev)
  with its(2) show ?thesis by (simp add: all_messages_rev)
qed

lemma message_for_props:
  assumes "message_for f kind extra = Inr m"
  shows "errorCode m = code_of kind" and "errorMsg m \<noteq> []"
  using assms
  by (cases kind; auto simp: message_for_def errorMessageConstructor_def min_max_text_def split: if_splits)+

lemma message_for_min_max:
  "message_for f MIN_MAX_ERROR (JObj [(''min'', mn), (''max'', mx)]) =
     Inr \<lparr>errorMsg = min_max_text f mn mx, errorCode = 4\<rparr>"
  by (simp add: message_for_def errorMessageConstructor_def get_prop_def)


lemma withMessage_Inr:
  "withMessage msg c = Inr c' \<Longrightarrow> \<exists>m. msg = Inr m \<and> withMessage (Inr m) c = Inr c'"
  by (cases msg) (auto simp: withMessage_def)

lemma fresh_validator:
  assumes "withMessage (message_for f kind extra) (add_validator v c) = Inr c'"
  shows "\<exists>m. message_for f kind extra = Inr m \<and> c' = c\<lparr>items := items c @ [Validator v (Some m)]\<rparr>"
  using withMessage_Inr [OF assms] by (auto simp: withMessage_fresh)

lemma fresh_validator_all:
  assumes "withMessage (message_for f kind extra) (add_validator v c) = Inr c'"
    and "all_messages P (items c)"
    and "\<And>m. message_for f kind extra = Inr m \<Longrightarrow> P m"
  shows "all_messages P (items c')"
  using fresh_validator [OF assms(1)] assms(2,3)
  by (auto simp: all_messages_def)

lemma applyMandatoryFieldValidation_all:
  assumes "applyMandatoryFieldValidation c req f = Inr c'"
    and "all_messages P (items c)"
    and "\<And>kind extra m. truthy req \<Longrightarrow> kind \<in> {MANDATORY_FIELD_ERROR, EMPTY_FIELD_ERROR} \<Longrightarrow>
           message_for f kind extra = Inr m \<Longrightarrow> P m"
  shows "all_messages P (items c')"
proof (cases "truthy req")
  case True
  with assms(1) obtain c1 c2 where
    c1: "withMessage (message_for f MANDATORY_FIELD_ERROR JNull) (add_validator Exists c) = Inr c1" and
    c2: "withMessage (message_for f EMPTY_FIELD_ERROR JNull) (add_validator NotEmpty c1) = Inr c2" and
    c3: "withMessage (message_for f EMPTY_FIELD_ERROR (JStr ''array'')) (add_validator (Custom ArrayNotEmpty) c2) = Inr c'"
    by (auto simp: applyMandatoryFieldValidation_def and_then_Inr)
  have "all_messages P (items c1)"
    by (rule fresh_validator_all [OF c1 assms(2)]) (rule assms(3) [OF True], simp_all)
  then have "all_messages P (items c2)"
    by (rule fresh_validator_all [OF c2]) (rule assms(3) [OF True], simp_all)
  then show ?thesis
    by (rule fresh_validator_all [OF c3]) (rule assms(3) [OF True], simp_all)
next
  case False
  with assms(1,2) show ?thesis
    by (auto simp: applyMandatoryFieldValidation_def set_optional_def)
qed

lemma applyArrayValidation_all:
  assumes "applyArrayValidation c t f = Inr c'"
    and "all_messages P (items c)"
    and "\<And>kind extra m. kind \<in> {DATATYPE_ERROR, ARRAY_DATATYPE_ERROR} \<Longrightarrow>
           message_for f kind extra = Inr m \<Longrightarrow> P m"
  shows "all_messages P (items c')"
proof -
  from assms(1) obtain c1 where
    c1: "withMessage (message_for f DATATYPE_ERROR (JStr ''array'')) (add_validator IsArray c) = Inr c1" and
    c2: "(if t \<noteq> JStr [] then withMessage (message_for f ARRAY_DATATYPE_ERROR t)
                (add_validator (Custom (ArrayElementsTypeof t)) c1) else Inr c1) = Inr c'"
    by (auto simp: applyArrayValidation_def and_then_Inr)
  have 1: "all_messages P (items c1)"
    by (rule fresh_validator_all [OF c1 assms(2)]) (rule assms(3), simp_all)
  show ?thesis
  proof (cases "t \<noteq> JStr []")
    case True
    with c2 have "withMessage (message_for f ARRAY_DATATYPE_ERROR t)
                (add_validator (Custom (ArrayElementsTypeof t)) c1) = Inr c'" by simp
    then show ?thesis
      by (rule fresh_validator_all [OF _ 1]) (rule assms(3), simp_all)
  next
    case False
    with c2 1 show ?thesis by simp
  qed
qed

lemma all_messages_add_sanitizer: "all_messages P (items (add_sanitizer s c)) = all_messages P (items c)"
  by (auto simp: all_messages_def add_sanitizer_def)

text \<open>After the handler, every validator but possibly the last one added has its message.\<close>

lemma dataTypeHandlers_then_message_all:
  assumes "dataTypeHandlers key t f c = Inr c1"
    and "withMessage (Inr m) c1 = Inr c'"
    and "key \<noteq> ''array''"
    and "all_messages P (items c)"
    and "P m"
  shows "all_messages P (items c')"
proof -
  consider (fresh) v where "c1 = add_validator v c"
    | (sanitized) v s where "c1 = add_sanitizer s (add_validator v c)"
    | (none) "c1 = c"
    using assms(1,3) by (auto simp: dataTypeHandlers_def split: if_splits)
  then show ?thesis
  proof cases
    case fresh
    with assms(2,4,5) show ?thesis by (auto simp: withMessage_fresh all_messages_def)
  next
    case sanitized
    with assms(2,4,5) show ?thesis by (auto simp: withMessage_fresh_sanitized all_messages_def)
  next
    case none
    with assms(2,4,5) show ?thesis by (auto intro: withMessage_all)
  qed
qed

lemma applyDataTypeValidation_all:
  assumes "applyDataTypeValidation c dt f = Inr c'"
    and "all_messages P (items c)"
    and "\<And>kind extra m. kind \<in> {DATATYPE_ERROR, ARRAY_DATATYPE_ERROR} \<Longrightarrow>
           message_for f kind extra = Inr m \<Longrightarrow> P m"
  shows "all_messages P (items c')"
proof -
  from assms(1) obtain dt' t c1 where
    h: "dataTypeHandlers (js_to_string dt') t f (add_sanitizer TrimText c) = Inr c1" and
    w: "(if dt' \<noteq> JStr ''array'' then withMessage (message_for f DATATYPE_ERROR dt') c1 else Inr c1) = Inr c'"
    by (auto simp: applyDataTypeValidation_def and_then_Inr)
  have base: "all_messages P (items (add_sanitizer TrimText c))"
    using assms(2) by (simp add: all_messages_add_sanitizer)
  show ?thesis
  proof (cases "dt' = JStr ''array''")
    case True
    with h w have "applyArrayValidation (add_sanitizer TrimText c) t f = Inr c'"
      by (simp add: dataTypeHandlers_def)
    then show ?thesis
      using base assms(3) by (rule applyArrayValidation_all)
  next
    case False
    with w obtain m where m: "message_for f DATATYPE_ERROR dt' = Inr m" "withMessage (Inr m) c1 = Inr c'"
      by (auto dest: withMessage_Inr)
    have "P m" by (rule assms(3) [OF _ m(1)]) simp
    show ?thesis
    proof (cases "js_to_string dt' = ''array''")
      case True
      txt \<open>A value other than the string \<open>array\<close> with that string form: the array handler
        runs, and the message replaces that of its last validator.\<close>
      with h have "applyArrayValidation (add_sanitizer TrimText c) t f = Inr c1"
        by (simp add: dataTypeHandlers_def)
      then have "all_messages P (items c1)"
        using base assms(3) by (rule applyArrayValidation_all)
      with m(2) \<open>P m\<close> show ?thesis by (auto intro: withMessage_all)
    next
      case False
      from h m(2) False base \<open>P m\<close> show ?thesis
        by (rule dataTypeHandlers_then_message_all)
    qed
  qed
qed

lemma ruleChain_stages:
  assumes "ruleChain f rule = Inr c"
  shows "\<exists>c1 c2 c3 c4 c5.
     applyMandatoryFieldValidation (body f) (get_prop rule ''required'') f = Inr c1 \<and>
     (if truthy (get_prop rule ''dataType'')
        then applyDataTypeValidation c1 (get_prop rule ''dataType'') f else Inr c1) = Inr c2 \<and>
     (if truthy (get_prop rule ''regex'')
        then applyRegexValidation c2 (get_prop rule ''regex'') f else Inr c2) = Inr c3 \<and>
     (if truthy (get_prop rule ''min'') \<or>
         (truthy (get_prop rule ''max'') \<and> get_prop rule ''dataType'' \<in> {JStr ''int'', JStr ''float''})
        then applyMinMaxValidation c3 f (get_prop rule ''dataType'') (get_prop rule ''min'') (get_prop rule ''max'')
      else Inr c3) = Inr c4 \<and>
     (if truthy (get_prop rule ''length'') \<and> get_prop rule ''dataType'' = JStr ''string''
        then applyLengthValidation c4 f (get_prop rule ''length'') else Inr c4) = Inr c5 \<and>
     (if truthy (get_prop rule ''allowedAvalues'')
        then applyAllowedValueValidation c5 f (get_prop rule ''allowedAvalues'') else Inr c5) = Inr c"
proof -
  from assms obtain required where "read_property rule ''required'' = Inr required"
    unfolding ruleChain_def Let_def and_then_Inr by blast
  then have "required = get_prop rule ''required''"
    by (auto simp: read_property_def split: if_splits)
  with assms \<open>read_property rule ''required'' = Inr required\<close> show ?thesis
    unfolding ruleChain_def Let_def and_then_Inr by auto
qed

lemma ruleChain_all:
  assumes "ruleChain f rule = Inr c"
    and A: "\<And>kind extra m. may_report rule kind extra \<Longrightarrow> message_for f kind extra = Inr m \<Longrightarrow> P m"
  shows "all_messages P (items c)"
proof -
  let ?dt = "get_prop rule ''dataType''"
  from ruleChain_stages [OF assms(1)] obtain c1 c2 c3 c4 c5 where
    s1: "applyMandatoryFieldValidation (body f) (get_prop rule ''required'') f = Inr c1" and
    s2: "(if truthy ?dt then applyDataTypeValidation c1 ?dt f else Inr c1) = Inr c2" and
    s3: "(if truthy (get_prop rule ''regex'') then applyRegexValidation c2 (get_prop rule ''regex'') f else Inr c2) = Inr c3" and
    s4: "(if truthy (get_prop rule ''min'') \<or> (truthy (get_prop rule ''max'') \<and> ?dt \<in> {JStr ''int'', JStr ''float''})
          then applyMinMaxValidation c3 f ?dt (get_prop rule ''min'') (get_prop rule ''max'') else Inr c3) = Inr c4" and
    s5: "(if truthy (get_prop rule ''length'') \<and> ?dt = JStr ''string''
          then applyLengthValidation c4 f (get_prop rule ''length'') else Inr c4) = Inr c5" and
    s6: "(if truthy (get_prop rule ''allowedAvalues'')
          then applyAllowedValueValidation c5 f (get_prop rule ''allowedAvalues'') else Inr c5) = Inr c"
    by blast
  have "all_messages P (items (body f))"
    by (simp add: all_messages_def body_def)
  with s1 have 1: "all_messages P (items c1)"
  proof (rule applyMandatoryFieldValidation_all)
    fix kind extra m
    assume "truthy (get_prop rule ''required'')" "kind \<in> {MANDATORY_FIELD_ERROR, EMPTY_FIELD_ERROR}"
      "message_for f kind extra = Inr m"
    then show "P m" using A [of kind extra m] by auto
  qed
  have 2: "all_messages P (items c2)"
  proof (cases "truthy ?dt")
    case True
    with s2 have "applyDataTypeValidation c1 ?dt f = Inr c2" by simp
    then show ?thesis using 1
    proof (rule applyDataTypeValidation_all)
      fix kind extra m
      assume "kind \<in> {DATATYPE_ERROR, ARRAY_DATATYPE_ERROR}" "message_for f kind extra = Inr m"
      with True show "P m" using A [of kind extra m] by auto
    qed
  next
    case False
    with s2 1 show ?thesis by simp
  qed
  have 3: "all_messages P (items c3)"
    using s3 2 by (auto simp: applyRegexValidation_def split: if_splits intro!: A elim!: fresh_validator_all)
  have 4: "all_messages P (items c4)"
    using s4 3 by (auto simp: applyMinMaxValidation_def split: if_splits intro!: A elim!: fresh_validator_all)
  have 5: "all_messages P (items c5)"
    using s5 4 by (auto simp: applyLengthValidation_def split: if_splits intro!: A elim!: fresh_validator_all)
  show ?thesis
    using s6 5 by (auto simp: applyAllowedValueValidation_def split: if_splits intro!: A elim!: fresh_validator_all)
qed

text \<open>Every message in the chain of a rule is one the rule can report.\<close>

lemma ruleChain_message_origin:
  assumes "ruleChain f rule = Inr c" and "Validator v mo \<in> set (items c)"
  shows "\<exists>m kind extra. mo = Some m \<and> may_report rule kind extra \<and> message_for f kind extra = Inr m"
proof -
  have "all_messages (\<lambda>m. \<exists>kind extra. may_report rule kind extra \<and> message_for f kind extra = Inr m) (items c)"
    using assms(1) by (rule ruleChain_all) blast
  with assms(2) show ?thesis by (auto simp: all_messages_def)
qed

section \<open>Which checks a rule is compiled into\<close>

lemma code_of_inject: "code_of a = code_of b \<Longrightarrow> a = b"
  by (cases a; cases b) auto

lemma ruleChain_code_origin:
  assumes "ruleChain f rule = Inr c" and "Validator v (Some m) \<in> set (items c)"
    and "errorCode m = code_of kind"
  shows "\<exists>extra. may_report rule kind extra \<and> message_for f kind extra = Inr m"
proof -
  from ruleChain_message_origin [OF assms(1,2)] obtain kind' extra where
    h: "may_report rule kind' extra" "message_for f kind' extra = Inr m" by auto
  from message_for_props(1) [OF h(2)] assms(3) have "kind' = kind"
    by (auto dest: code_of_inject)
  with h show ?thesis by blast
qed

lemma fresh_validator_member:
  assumes "withMessage (message_for f kind extra) (add_validator v c) = Inr c'"
  shows "\<exists>m. message_for f kind extra = Inr m \<and> Validator v (Some m) \<in> set (items c') \<and>
             set (items c) \<subseteq> set (items c')"
  using fresh_validator [OF assms] by auto

lemma applyMinMaxValidation_member:
  assumes "applyMinMaxValidation c f dt mn mx = Inr c'"
  shows "\<exists>v m. message_for f MIN_MAX_ERROR (JObj [(''min'', mn),
    (''max'', mx)]) = Inr m \<and>
           Validator v (Some m) \<in> set (items c')"
proof (cases "loose_eq_word dt ''int''")
  case True
  with assms have "withMessage (message_for f MIN_MAX_ERROR (JObj [(''min'', mn), (''max'', mx)]))
      (add_validator (IsInt (Some (range_options mn mx))) c) = Inr c'"
    by (simp add: applyMinMaxValidation_def)
  from fresh_validator_member [OF this] show ?thesis by blast
next
  case False
  with assms have "withMessage (message_for f MIN_MAX_ERROR (JObj [(''min'', mn), (''max'', mx)]))
      (add_validator (IsFloat (Some (range_options mn mx))) c) = Inr c'"
    by (simp add: applyMinMaxValidation_def)
  from fresh_validator_member [OF this] show ?thesis by blast
qed

text \<open>
  The chain of a rule holds a range check exactly when the rule has a lower bound that
  counts, or an upper bound that counts and the data type \<open>int\<close> or \<open>float\<close>: a lower
  bound alone brings the check in, whatever the data type.
\<close>

lemma range_check_compiled_iff:
  assumes "ruleChain f rule = Inr c"
  shows "(\<exists>v m. Validator v (Some m) \<in> set (items c) \<and> errorCode m = code_of MIN_MAX_ERROR) \<longleftrightarrow>
         (truthy (get_prop rule ''min'') \<or>
            (truthy (get_prop rule ''max'') \<and> get_prop rule ''dataType'' \<in> {JStr ''int'', JStr ''float''}))"
    (is "?compiled \<longleftrightarrow> ?cond")
proof
  assume ?compiled
  then obtain v m where "Validator v (Some m) \<in> set (items c)" "errorCode m = code_of MIN_MAX_ERROR"
    by blast
  from ruleChain_code_origin [OF assms this] show ?cond by auto
next
  assume cond: ?cond
  let ?dt = "get_prop rule ''dataType''"
  from ruleChain_stages [OF assms] obtain c3 c4 c5 where
    s4: "(if ?cond then applyMinMaxValidation c3 f ?dt (get_prop rule ''min'') (get_prop rule ''max'') else Inr c3) = Inr c4" and
    s5: "(if truthy (get_prop rule ''length'') \<and> ?dt = JStr ''string''
          then applyLengthValidation c4 f (get_prop rule ''length'') else Inr c4) = Inr c5" and
    s6: "(if truthy (get_prop rule ''allowedAvalues'')
          then applyAllowedValueValidation c5 f (get_prop rule ''allowedAvalues'') else Inr c5) = Inr c"
    by blast
  from s4 cond have "applyMinMaxValidation c3 f ?dt (get_prop rule ''min'') (get_prop rule ''max'') = Inr c4"
    by simp
  from applyMinMaxValidation_member [OF this] obtain v m where
    m: "message_for f MIN_MAX_ERROR (JObj [(''min'', get_prop rule ''min''),
      (''max'', get_prop rule ''max'')]) = Inr m"
    and "Validator v (Some m) \<in> set (items c4)"
    by blast
  moreover have "set (items c4) \<subseteq> set (items c5)"
    using s5 by (auto simp: applyLengthValidation_def split: if_splits dest!: fresh_validator)
  moreover have "set (items c5) \<subseteq> set (items c)"
    using s6 by (auto simp: applyAllowedValueValidation_def split: if_splits dest!: fresh_validator)
  ultimately have "Validator v (Some m) \<in> set (items c)" by blast
  moreover from message_for_props(1) [OF m] have "errorCode m = code_of MIN_MAX_ERROR" .
  ultimately show ?compiled by blast
qed

text \<open>
  The chain of a rule holds a membership check exactly when the rule has the property
  \<^verbatim>\<open>allowedAvalues\<close>, which the meta-validator reports as unknown. So no rule that
  passes the meta-validator without an error is compiled with a membership check.
\<close>

lemma membership_check_compiled_iff:
  assumes "ruleChain f rule = Inr c"
  shows "(\<exists>v m. Validator v (Some m) \<in> set (items c) \<and> errorCode m = code_of ALLOWED_VALUE_ERROR) \<longleftrightarrow>
         truthy (get_prop rule ''allowedAvalues'')"
    (is "?compiled \<longleftrightarrow> ?cond")
proof
  assume ?compiled
  then obtain v m where "Validator v (Some m) \<in> set (items c)" "errorCode m = code_of ALLOWED_VALUE_ERROR"
    by blast
  from ruleChain_code_origin [OF assms this] show ?cond by auto
next
  assume cond: ?cond
  from ruleChain_stages [OF assms] obtain c5 where
    "(if truthy (get_prop rule ''allowedAvalues'')
          then applyAllowedValueValidation c5 f (get_prop rule ''allowedAvalues'') else Inr c5) = Inr c"
    by blast
  with cond have "applyAllowedValueValidation c5 f (get_prop rule ''allowedAvalues'') = Inr c" by simp
  then have "\<exists>m. message_for f ALLOWED_VALUE_ERROR (get_prop rule ''allowedAvalues'') = Inr m \<and>
      Validator (IsIn (get_prop rule ''allowedAvalues'')) (Some m) \<in> set (items c) \<and>
      set (items c5) \<subseteq> set (items c)"
    unfolding applyAllowedValueValidation_def by (rule fresh_validator_member)
  then obtain m where m: "message_for f ALLOWED_VALUE_ERROR (get_prop rule ''allowedAvalues'') = Inr m"
    and "Validator (IsIn (get_prop rule ''allowedAvalues'')) (Some m) \<in> set (items c)"
    by blast
  with message_for_props(1) [OF m] show ?compiled by blast
qed

lemma validateValidationRule_unknown:
  assumes "typeof rule = ''object''" "rule \<noteq> JNull"
    and "key \<in> set (map fst (own_entries rule))" "key \<notin> set validProperties"
  shows "validateValidationRule rule path errors \<noteq> errors"
proof -
  have "filter (\<lambda>key. key \<notin> set validProperties) (map fst (own_entries rule)) \<noteq> []"
    using assms(3,4) by (auto simp: filter_empty_conv)
  then have "unknown_properties rule path \<noteq> []"
    by (simp add: unknown_properties_def)
  then have "length errors < length (errors @ unknown_properties rule path)"
    by simp
  moreover have "length (errors @ unknown_properties rule path) \<le> length (validateValidationRule rule path errors)"
    using assms(1,2) by (simp add: validateValidationRule_def push_when_def)
  ultimately show ?thesis by auto
qed

lemma get_prop_absent:
  assumes "k \<noteq> ''length''" and "k \<notin> set (map fst (own_entries v))"
  shows "get_prop v k = JUndefined"
proof -
  from assms(2) have "map_of (own_entries v) k = None"
    by (simp add: map_of_eq_None_iff)
  with assms(1) show ?thesis by (simp add: get_prop_def)
qed

lemma accepted_rule_has_no_membership_check:
  assumes "typeof rule = ''object''" "rule \<noteq> JNull"
    and "validateValidationRule rule path errors = errors"
    and "ruleChain f rule = Inr c"
  shows "\<not> (\<exists>v m. Validator v (Some m) \<in> set (items c) \<and> errorCode m = code_of ALLOWED_VALUE_ERROR)"
proof -
  have "''allowedAvalues'' \<notin> set (map fst (own_entries rule))"
    using validateValidationRule_unknown [OF assms(1,2), of "''allowedAvalues''" path errors] assms(3)
    by (auto simp: validProperties_def)
  then have "get_prop rule ''allowedAvalues'' = JUndefined"
    by (intro get_prop_absent) simp_all
  then have "\<not> truthy (get_prop rule ''allowedAvalues'')" by simp
  with membership_check_compiled_iff [OF assms(4)] show ?thesis by blast
qed

section \<open>The evaluation of a tree is the evaluation of its checks in order\<close>

lemma first_failure_append:
  "first_failure lib (xs @ ys) input =
     (case first_failure lib xs input of
        Inl e \<Rightarrow> Inl e
      | Inr r \<Rightarrow> if fst r \<noteq> [] then Inr r else first_failure lib ys (snd r))"
  by (induction lib xs input rule: first_failure.induct) auto

lemma builder_is_first_failure:
  "expressRuleBuilder lib tree input prefix = first_failure lib (field_checks tree prefix) input"
  "ruleLoop lib es input prefix = first_failure lib (entries_checks es prefix) input"
proof (induction lib tree input prefix and lib es input prefix rule: expressRuleBuilder_ruleLoop.induct)
  case (1 lib rules input prefix)
  then show ?case
    by (auto simp: expressRuleBuilder.simps field_checks.simps split: sum.splits)
next
  case (2 lib input prefix)
  then show ?case by simp
next
  case (3 lib f rule rest input prefix)
  show ?case
  proof (cases "first_key_value rule")
    case (Inl e)
    then show ?thesis by simp
  next
    case (Inr v)
    show ?thesis
    proof (cases "typeof v = ''object''")
      case True
      with Inr 3(1,2) show ?thesis
        by (auto simp: first_failure_append split: sum.splits)
    next
      case False
      with Inr 3(3) show ?thesis
        by (auto split: sum.splits)
    qed
  qed
qed

lemma validateField_no_errors:
  "fst (run lib c input) = [] \<Longrightarrow> validateField lib c input = ([], snd (run lib c input))"
  by (simp add: validateField_def)

lemma first_failure_after_passing:
  "all_pass lib pre input \<Longrightarrow>
   first_failure lib (map Inr pre @ cs) input = first_failure lib cs (input_after lib pre input)"
  by (induction pre arbitrary: input) (auto simp: validateField_no_errors)

lemma lowest_code_cases:
  "(lowest_code es (c0, s0) = (c0, s0) \<and> (\<forall>m. Some m \<in> set es \<longrightarrow> c0 \<le> errorCode m)) \<or>
   (\<exists>es1 m es2. es = es1 @ Some m # es2 \<and> errorCode m < c0 \<and>
      (\<forall>m'. Some m' \<in> set es1 \<longrightarrow> errorCode m < errorCode m') \<and>
      (\<forall>m'. Some m' \<in> set es2 \<longrightarrow> errorCode m \<le> errorCode m') \<and>
      lowest_code es (c0, s0) = (errorCode m, errorMsg m))"
proof (induction es arbitrary: c0 s0)
  case Nil
  then show ?case by simp
next
  case (Cons e es)
  show ?case
  proof (cases e)
    case None
    from Cons [of c0 s0] show ?thesis
    proof
      assume "lowest_code es (c0, s0) = (c0, s0) \<and> (\<forall>m. Some m \<in> set es \<longrightarrow> c0 \<le> errorCode m)"
      with None show ?thesis by auto
    next
      assume "\<exists>es1 m es2. es = es1 @ Some m # es2 \<and> errorCode m < c0 \<and>
        (\<forall>m'. Some m' \<in> set es1 \<longrightarrow> errorCode m < errorCode m') \<and>
        (\<forall>m'. Some m' \<in> set es2 \<longrightarrow> errorCode m \<le> errorCode m') \<and>
        lowest_code es (c0, s0) = (errorCode m, errorMsg m)"
      then obtain es1 m es2 where h: "es = es1 @ Some m # es2" "errorCode m < c0"
        "\<forall>m'. Some m' \<in> set es1 \<longrightarrow> errorCode m < errorCode m'"
        "\<forall>m'. Some m' \<in> set es2 \<longrightarrow> errorCode m \<le> errorCode m'"
        "lowest_code es (c0, s0) = (errorCode m, errorMsg m)" by blast
      have "e # es = (None # es1) @ Some m # es2" using h(1) None by simp
      moreover have "\<forall>m'. Some m' \<in> set (None # es1) \<longrightarrow> errorCode m < errorCode m'" using h(3) by simp
      moreover have "lowest_code (e # es) (c0, s0) = (errorCode m, errorMsg m)" using h(5) None by simp
      ultimately show ?thesis using h(2,4) by blast
    qed
  next
    case (Some x)
    show ?thesis
    proof (cases "errorCode x < c0")
      case True
      from Cons [of "errorCode x" "errorMsg x"] show ?thesis
      proof
        assume a: "lowest_code es (errorCode x, errorMsg x) = (errorCode x, errorMsg x) \<and>
          (\<forall>m. Some m \<in> set es \<longrightarrow> errorCode x \<le> errorCode m)"
        have "e # es = [] @ Some x # es" using Some by simp
        moreover have "lowest_code (e # es) (c0, s0) = (errorCode x, errorMsg x)"
          using a Some True by simp
        moreover have "\<forall>m'. Some m' \<in> set ([] :: message option list) \<longrightarrow> errorCode x < errorCode m'" by simp
        ultimately show ?thesis using a True by blast
      next
        assume "\<exists>es1 m es2. es = es1 @ Some m # es2 \<and> errorCode m < errorCode x \<and>
          (\<forall>m'. Some m' \<in> set es1 \<longrightarrow> errorCode m < errorCode m') \<and>
          (\<forall>m'. Some m' \<in> set es2 \<longrightarrow> errorCode m \<le> errorCode m') \<and>
          lowest_code es (errorCode x, errorMsg x) = (errorCode m, errorMsg m)"
        then obtain es1 m es2 where h: "es = es1 @ Some m # es2" "errorCode m < errorCode x"
          "\<forall>m'. Some m' \<in> set es1 \<longrightarrow> errorCode m < errorCode m'"
          "\<forall>m'. Some m' \<in> set es2 \<longrightarrow> errorCode m \<le> errorCode m'"
          "lowest_code es (errorCode x, errorMsg x) = (errorCode m, errorMsg m)" by blast
        have "e # es = (Some x # es1) @ Some m # es2" using h(1) Some by simp
        moreover have "\<forall>m'. Some m' \<in> set (Some x # es1) \<longrightarrow> errorCode m < errorCode m'"
          using h(2,3) by auto
        moreover have "lowest_code (e # es) (c0, s0) = (errorCode m, errorMsg m)"
          using h(5) Some True by simp
        moreover have "errorCode m < c0" using h(2) True by simp
        ultimately show ?thesis using h(4) by blast
      qed
    next
      case False
      from Cons [of c0 s0] show ?thesis
      proof
        assume "lowest_code es (c0, s0) = (c0, s0) \<and> (\<forall>m. Some m \<in> set es \<longrightarrow> c0 \<le> errorCode m)"
        with Some False show ?thesis by auto
      next
        assume "\<exists>es1 m es2. es = es1 @ Some m # es2 \<and> errorCode m < c0 \<and>
          (\<forall>m'. Some m' \<in> set es1 \<longrightarrow> errorCode m < errorCode m') \<and>
          (\<forall>m'. Some m' \<in> set es2 \<longrightarrow> errorCode m \<le> errorCode m') \<and>
          lowest_code es (c0, s0) = (errorCode m, errorMsg m)"
        then obtain es1 m es2 where h: "es = es1 @ Some m # es2" "errorCode m < c0"
          "\<forall>m'. Some m' \<in> set es1 \<longrightarrow> errorCode m < errorCode m'"
          "\<forall>m'. Some m' \<in> set es2 \<longrightarrow> errorCode m \<le> errorCode m'"
          "lowest_code es (c0, s0) = (errorCode m, errorMsg m)" by blast
        have "e # es = (Some x # es1) @ Some m # es2" using h(1) Some by simp
        moreover have "\<forall>m'. Some m' \<in> set (Some x # es1) \<longrightarrow> errorCode m < errorCode m'"
          using h(2,3) False by auto
        moreover have "lowest_code (e # es) (c0, s0) = (errorCode m, errorMsg m)"
          using h(5) Some False by simp
        ultimately show ?thesis using h(2,4) by blast
      qed
    qed
  qed
qed

lemma run_items_messages:
  "e \<in> set (fst (run_items lib its v)) \<Longrightarrow> \<exists>val. Validator val e \<in> set its"
  by (induction lib its v rule: run_items.induct) (auto split: if_splits)

lemma run_messages:
  "e \<in> set (fst (run lib c input)) \<Longrightarrow> \<exists>val. Validator val e \<in> set (items c)"
  by (auto simp: run_def run_value_def dest: run_items_messages split: if_splits)

lemma field_checks_from_ruleChain:
  "Inr c \<in> set (field_checks tree prefix) \<Longrightarrow> \<exists>f rule. ruleChain f rule = Inr c"
  "Inr c \<in> set (entries_checks es prefix) \<Longrightarrow> \<exists>f rule. ruleChain f rule = Inr c"
proof (induction tree prefix and es prefix rule: field_checks_entries_checks.induct)
  case (1 tree prefix)
  then show ?case by (auto simp: field_checks.simps split: sum.splits)
next
  case (2 prefix)
  then show ?case by simp
next
  case (3 f rule rest prefix)
  show ?case
  proof (cases "first_key_value rule")
    case (Inl e)
    with 3(4) show ?thesis by simp
  next
    case (Inr v)
    show ?thesis
    proof (cases "typeof v = ''object''")
      case True
      with Inr 3(1,2,4) show ?thesis by auto
    next
      case False
      with Inr 3(4) have "Inr c = ruleChain (join_path prefix f) rule \<or> Inr c \<in> set (entries_checks rest prefix)"
        by auto
      then show ?thesis
      proof
        assume "Inr c = ruleChain (join_path prefix f) rule"
        then have "ruleChain (join_path prefix f) rule = Inr c" by simp
        then show ?thesis by blast
      next
        assume "Inr c \<in> set (entries_checks rest prefix)"
        with Inr False 3(3) show ?thesis by blast
      qed
    qed
  qed
qed

lemma code_of_bounds: "0 \<le> code_of kind \<and> code_of kind \<le> 7"
  by (cases kind) auto

lemma ruleChain_reportable: "ruleChain f rule = Inr c \<Longrightarrow> all_messages reportable (items c)"
proof (rule ruleChain_all)
  fix kind extra m
  assume "message_for f kind extra = Inr m"
  then show "reportable m"
    using message_for_props [of f kind extra m] code_of_bounds [of kind]
    by (simp add: reportable_def MAX_SAFE_INTEGER_def)
qed

lemma validateField_lowest:
  assumes "all_messages reportable (items c)" and "fst (run lib c input) \<noteq> []"
  shows "\<exists>es1 m es2. fst (run lib c input) = es1 @ Some m # es2 \<and>
           (\<forall>m'. Some m' \<in> set es1 \<longrightarrow> errorCode m < errorCode m') \<and>
           (\<forall>m'. Some m' \<in> set es2 \<longrightarrow> errorCode m \<le> errorCode m') \<and>
           errorMsg m \<noteq> [] \<and>
           validateField lib c input = (errorMsg m, snd (run lib c input))"
proof -
  let ?es = "fst (run lib c input)"
  have ok: "\<And>e. e \<in> set ?es \<Longrightarrow> \<exists>m. e = Some m \<and> reportable m"
    using assms(1) by (auto simp: all_messages_def dest!: run_messages)
  from assms(2) obtain e where "e \<in> set ?es" by (cases ?es) auto
  with ok obtain m0 where m0: "Some m0 \<in> set ?es" "reportable m0" by blast
  from lowest_code_cases [of ?es MAX_SAFE_INTEGER "[]"] show ?thesis
  proof
    assume "lowest_code ?es (MAX_SAFE_INTEGER, []) = (MAX_SAFE_INTEGER, []) \<and>
      (\<forall>m. Some m \<in> set ?es \<longrightarrow> MAX_SAFE_INTEGER \<le> errorCode m)"
    with m0 show ?thesis by (auto simp: reportable_def)
  next
    assume "\<exists>es1 m es2. ?es = es1 @ Some m # es2 \<and> errorCode m < MAX_SAFE_INTEGER \<and>
      (\<forall>m'. Some m' \<in> set es1 \<longrightarrow> errorCode m < errorCode m') \<and>
      (\<forall>m'. Some m' \<in> set es2 \<longrightarrow> errorCode m \<le> errorCode m') \<and>
      lowest_code ?es (MAX_SAFE_INTEGER, []) = (errorCode m, errorMsg m)"
    then obtain es1 m es2 where h: "?es = es1 @ Some m # es2"
      "\<forall>m'. Some m' \<in> set es1 \<longrightarrow> errorCode m < errorCode m'"
      "\<forall>m'. Some m' \<in> set es2 \<longrightarrow> errorCode m \<le> errorCode m'"
      "lowest_code ?es (MAX_SAFE_INTEGER, []) = (errorCode m, errorMsg m)" by blast
    from h(1) have "Some m \<in> set ?es" by simp
    with ok have "errorMsg m \<noteq> []" by (auto simp: reportable_def)
    moreover have "validateField lib c input = (errorMsg m, snd (run lib c input))"
      using h(4) by (simp add: validateField_def)
    ultimately show ?thesis using h(1,2,3) by blast
  qed
qed

section \<open>Where the chain trims\<close>


















section \<open>The meta-validator keeps every error\<close>

text \<open>No function of the meta-validator drops or reorders an error recorded before it ran.\<close>

lemma extends_refl: "extends errors errors"
  by (simp add: extends_def)

lemma extends_trans: "extends a b \<Longrightarrow> extends b c \<Longrightarrow> extends a c"
  by (auto simp: extends_def)

lemma extends_append: "extends errors (errors @ new)"
  by (simp add: extends_def)

lemma extends_length: "extends a b \<Longrightarrow> length a \<le> length b"
  by (auto simp: extends_def)

lemma validateValidationRule_keeps: "extends errors (validateValidationRule rule path errors)"
  by (auto simp: validateValidationRule_def push_when_def extends_def)

lemma validateNestedStructure_keeps:
  "extends errors (validateNestedStructure obj path errors)"
  "extends errors (validateEntries es path errors)"
proof (induction obj path errors and es path errors rule: validateNestedStructure_validateEntries.induct)
  case (1 obj path errors)
  then show ?case by (auto simp: validateNestedStructure.simps extends_append)
next
  case (2 path errors)
  then show ?case by (simp add: extends_refl)
next
  case (3 key val rest path errors)
  let ?errors' = "if isValidationRule val then validateValidationRule val (join_path path key) errors
        else if typeof val = ''object'' \<and> val \<noteq> JNull
          then validateNestedStructure val (join_path path key) errors
        else errors @ [join_path path key @ '': Invalid schema structure'']"
  have "extends errors ?errors'"
    using 3(1) by (auto simp: validateValidationRule_keeps extends_append)
  moreover have "extends ?errors' (validateEntries rest path ?errors')"
    by (rule 3(2))
  ultimately show ?case by (auto intro: extends_trans)
qed

lemma validateRoutes_keeps: "extends errors (validateRoutes routes errors)"
proof (induction routes errors rule: validateRoutes.induct)
  case (1 errors)
  then show ?case by (simp add: extends_refl)
next
  case (2 route routeSchema rest errors)
  let ?errors' = "if typeof routeSchema \<noteq> ''object'' \<or> routeSchema = JNull
          then errors @ [''Route '' @ quoted route @ '': Must contain an object of validation rules'']
        else validateNestedStructure routeSchema route errors"
  have "extends errors ?errors'"
    by (auto simp: validateNestedStructure_keeps(1) extends_append)
  with 2 show ?case by (auto intro: extends_trans)
qed

text \<open>Every entry of a tree and every route of a schema is visited, whatever came before.\<close>

lemma validateEntries_append:
  "validateEntries (es1 @ es2) path errors = validateEntries es2 path (validateEntries es1 path errors)"
  by (induction es1 arbitrary: errors) auto

lemma validateRoutes_append:
  "validateRoutes (rs1 @ rs2) errors = validateRoutes rs2 (validateRoutes rs1 errors)"
  by (induction rs1 arbitrary: errors) auto

text \<open>
  A data type that is a string outside the list is recorded, wherever in the schema the
  meta-validator meets the rule, and the schema is then not valid.
\<close>

lemma validateValidationRule_invalid_dataType:
  assumes "typeof rule = ''object''" "rule \<noteq> JNull" "invalid_dataType rule"
  shows "length errors < length (validateValidationRule rule path errors)"
proof -
  let ?e1 = "push_when (has_key ''required'' rule \<and> typeof (get_prop rule ''required'') \<noteq> ''boolean'')
           (path @ '': '' @ quoted ''required'' @ '' must be a boolean'') (errors @ unknown_properties rule path)"
  let ?e2 = "?e1 @ [path @ '': Invalid dataType '' @ quoted (js_to_string (get_prop rule ''dataType''))]"
  have "length errors \<le> length ?e1" by (simp add: push_when_def)
  then have "length errors < length ?e2" by simp
  moreover have "length ?e2 \<le> length (validateValidationRule rule path errors)"
    using assms by (simp add: validateValidationRule_def invalid_dataType_def push_when_def)
  ultimately show ?thesis by simp
qed

lemma validateEntries_strict:
  assumes "(key, val) \<in> set es"
    and "\<And>errs. length errs <
           length (if isValidationRule val then validateValidationRule val (join_path path key) errs
                   else if typeof val = ''object'' \<and> val \<noteq> JNull
                     then validateNestedStructure val (join_path path key) errs
                   else errs @ [join_path path key @ '': Invalid schema structure''])"
  shows "length errors < length (validateEntries es path errors)"
proof -
  from assms(1) obtain es1 es2 where es: "es = es1 @ (key, val) # es2"
    by (auto simp: in_set_conv_decomp)
  let ?a = "validateEntries es1 path errors"
  let ?b = "if isValidationRule val then validateValidationRule val (join_path path key) ?a
                   else if typeof val = ''object'' \<and> val \<noteq> JNull
                     then validateNestedStructure val (join_path path key) ?a
                   else ?a @ [join_path path key @ '': Invalid schema structure'']"
  have "length errors \<le> length ?a"
    by (rule extends_length) (rule validateNestedStructure_keeps(2))
  also have "\<dots> < length ?b" by (rule assms(2))
  also have "\<dots> \<le> length (validateEntries es2 path ?b)"
    by (rule extends_length) (rule validateNestedStructure_keeps(2))
  also have "validateEntries es2 path ?b = validateEntries es path errors"
    by (simp add: es validateEntries_append)
  finally show ?thesis .
qed

lemma invalid_dataType_is_rule:
  "typeof rule = ''object'' \<Longrightarrow> rule \<noteq> JNull \<Longrightarrow> invalid_dataType rule \<Longrightarrow> isValidationRule rule"
  by (cases rule) (auto simp: isValidationRule_def invalid_dataType_def)

lemma checked_rule_recorded:
  assumes "checked_as_rule tree rule" and "typeof tree = ''object''" "tree \<noteq> JNull"
    and "invalid_dataType rule"
  shows "length errors < length (validateNestedStructure tree path errors)"
  using assms
proof (induction arbitrary: path errors rule: checked_as_rule.induct)
  case (here key val tree)
  from here.hyps(2) have obj: "typeof val = ''object''" "val \<noteq> JNull"
    by (auto simp: isValidationRule_def)
  have "length errors < length (validateEntries (own_entries tree) path errors)"
    using here.hyps(1)
  proof (rule validateEntries_strict)
    fix errs
    show "length errs <
           length (if isValidationRule val then validateValidationRule val (join_path path key) errs
                   else if typeof val = ''object'' \<and> val \<noteq> JNull
                     then validateNestedStructure val (join_path path key) errs
                   else errs @ [join_path path key @ '': Invalid schema structure''])"
      using here.hyps(2) validateValidationRule_invalid_dataType [OF obj here.prems(3)] by simp
  qed
  with here.prems(1,2) show ?case by (simp add: validateNestedStructure.simps)
next
  case (below key val tree rule)
  have "length errors < length (validateEntries (own_entries tree) path errors)"
    using below.hyps(1)
  proof (rule validateEntries_strict)
    fix errs
    show "length errs <
           length (if isValidationRule val then validateValidationRule val (join_path path key) errs
                   else if typeof val = ''object'' \<and> val \<noteq> JNull
                     then validateNestedStructure val (join_path path key) errs
                   else errs @ [join_path path key @ '': Invalid schema structure''])"
      using below.hyps(2,3,4) below.IH [OF below.hyps(3,4) below.prems(3)] by simp
  qed
  with below.prems(1,2) show ?case by (simp add: validateNestedStructure.simps)
qed

lemma validateRoutes_strict:
  assumes "(route, tree) \<in> set routes" and "typeof tree = ''object''" "tree \<noteq> JNull"
    and "\<And>errs. length errs < length (validateNestedStructure tree route errs)"
  shows "length errors < length (validateRoutes routes errors)"
proof -
  from assms(1) obtain rs1 rs2 where rs: "routes = rs1 @ (route, tree) # rs2"
    by (auto simp: in_set_conv_decomp)
  let ?a = "validateRoutes rs1 errors"
  let ?b = "validateNestedStructure tree route ?a"
  have "length errors \<le> length ?a"
    by (rule extends_length) (rule validateRoutes_keeps)
  also have "\<dots> < length ?b" by (rule assms(4))
  also have "\<dots> \<le> length (validateRoutes rs2 ?b)"
    by (rule extends_length) (rule validateRoutes_keeps)
  also have "validateRoutes rs2 ?b = validateRoutes routes errors"
    using assms(2,3) by (simp add: rs validateRoutes_append)
  finally show ?thesis .
qed

lemma invalid_string_dataType_rejected:
  assumes "typeof schema = ''object''" "schema \<noteq> JNull"
    and "(route, tree) \<in> set (own_entries schema)" "typeof tree = ''object''" "tree \<noteq> JNull"
    and "checked_as_rule tree rule" "invalid_dataType rule"
  shows "\<not> validateSchema schema \<and> snd (schemaValidator schema) \<noteq> []"
proof -
  have "length ([] :: string list) < length (validateRoutes (own_entries schema) [])"
    using assms(3,4,5)
  proof (rule validateRoutes_strict)
    fix errs
    show "length errs < length (validateNestedStructure tree route errs)"
      using assms(6,4,5,7) by (rule checked_rule_recorded)
  qed
  then have "validateRoutes (own_entries schema) [] \<noteq> []" by auto
  with assms(1,2) show ?thesis
    by (simp add: validateSchema_def schemaValidator_def Let_def)
qed

section \<open>Which failure is reported\<close>

lemma run_single_value:
  "select lib (field c) input = [v] \<Longrightarrow> fst (run lib c input) = fst (run_value lib c v)"
  by (simp add: run_def)

lemma run_items_in_chain_order:
  "fst (run_items lib (xs @ ys) v) =
     fst (run_items lib xs v) @ fst (run_items lib ys (snd (run_items lib xs v)))"
  by (induction lib xs v rule: run_items.induct) auto

text \<open>
  Claim C1, as amended. The failure reported for a request is that of the first field
  in traversal order that reports any: when the fields before it report nothing, the
  result is the message of that field, whatever the fields after it would report. Of
  the failures of that field it is one with the lowest code, and among those with the
  lowest code the one that stands first in the list of failures reported for the
  field. When the path of the field selects a single value, that list is the list of
  the failed checks of the chain in the order in which they were added to it.
\<close>

theorem first_failing_field_reported:
  assumes "field_checks tree prefix = map Inr pre @ Inr c # rest"
    and "all_pass lib pre input"
    and "fst (run lib c (input_after lib pre input)) \<noteq> []"
  shows "\<exists>es1 m es2. fst (run lib c (input_after lib pre input)) = es1 @ Some m # es2 \<and>
           (\<forall>m'. Some m' \<in> set es1 \<longrightarrow> errorCode m < errorCode m') \<and>
           (\<forall>m'. Some m' \<in> set es2 \<longrightarrow> errorCode m \<le> errorCode m') \<and>
           expressRuleBuilder lib tree input prefix =
             Inr (errorMsg m, snd (run lib c (input_after lib pre input))) \<and>
           (\<forall>v. select lib (field c) (input_after lib pre input) = [v] \<longrightarrow>
                fst (run_items lib (items c) v) = es1 @ Some m # es2)"
proof -
  let ?input = "input_after lib pre input"
  have "Inr c \<in> set (field_checks tree prefix)" using assms(1) by simp
  then obtain f rule where "ruleChain f rule = Inr c"
    using field_checks_from_ruleChain(1) by blast
  then have "all_messages reportable (items c)" by (rule ruleChain_reportable)
  from validateField_lowest [OF this assms(3)] obtain es1 m es2 where
    h: "fst (run lib c ?input) = es1 @ Some m # es2"
       "\<forall>m'. Some m' \<in> set es1 \<longrightarrow> errorCode m < errorCode m'"
       "\<forall>m'. Some m' \<in> set es2 \<longrightarrow> errorCode m \<le> errorCode m'"
       "errorMsg m \<noteq> []"
       "validateField lib c ?input = (errorMsg m, snd (run lib c ?input))" by blast
  have "expressRuleBuilder lib tree input prefix = first_failure lib (Inr c # rest) ?input"
    using assms(1,2) by (simp add: builder_is_first_failure(1) first_failure_after_passing)
  also have "\<dots> = Inr (errorMsg m, snd (run lib c ?input))"
    using h(4,5) by simp
  finally have result: "expressRuleBuilder lib tree input prefix =
      Inr (errorMsg m, snd (run lib c ?input))" .
  have single: "fst (run_items lib (items c) v) = es1 @ Some m # es2"
    if "select lib (field c) ?input = [v]" for v
  proof -
    from run_single_value [OF that] h(1) have "fst (run_value lib c v) = es1 @ Some m # es2"
      by simp
    then show ?thesis by (auto simp: run_value_def split: if_splits)
  qed
  from h(1,2,3) result single show ?thesis by blast
qed

text \<open>
  An instance on a schema the meta-validator accepts. Field \<open>a\<close> is present, field \<open>b\<close>
  must be a string and is the number 5, field \<open>c\<close> is required and absent. The failure
  reported is the one of \<open>b\<close>, its only one.
\<close>

theorem first_failing_field_reported_witness:
  "validateSchema (JObj [(''/r'', (JObj [(''a'', JObj [(''required'', JBool True)]),
       (''b'', JObj [(''required'', JBool True), (''dataType'', JStr ''string'')]),
       (''c'', JObj [(''required'', JBool True)])]))]) \<and>
   field_checks (JObj [(''a'', JObj [(''required'', JBool True)]),
       (''b'', JObj [(''required'', JBool True), (''dataType'', JStr ''string'')]),
       (''c'', JObj [(''required'', JBool True)])]) [] =
     map Inr [\<lparr>field = ''a'', items = [Validator Exists (Some \<lparr>errorMsg = ''a : is mandatory'', errorCode = 0\<rparr>),
        Validator NotEmpty (Some \<lparr>errorMsg = ''a : should not be empty'', errorCode = 1\<rparr>),
        Validator (Custom ArrayNotEmpty) (Some \<lparr>errorMsg = ''a : should not be an empty array'', errorCode = 1\<rparr>)],
        optional = False\<rparr>] @
     Inr \<lparr>field = ''b'', items = [Validator Exists (Some \<lparr>errorMsg = ''b : is mandatory'', errorCode = 0\<rparr>),
        Validator NotEmpty (Some \<lparr>errorMsg = ''b : should not be empty'', errorCode = 1\<rparr>),
        Validator (Custom ArrayNotEmpty) (Some \<lparr>errorMsg = ''b : should not be an empty array'', errorCode = 1\<rparr>),
        Sanitizer TrimText,
        Validator IsString (Some \<lparr>errorMsg = ''b should be string'', errorCode = 2\<rparr>)],
        optional = False\<rparr> #
     [Inr \<lparr>field = ''c'', items = [Validator Exists (Some \<lparr>errorMsg = ''c : is mandatory'', errorCode = 0\<rparr>),
        Validator NotEmpty (Some \<lparr>errorMsg = ''c : should not be empty'', errorCode = 1\<rparr>),
        Validator (Custom ArrayNotEmpty) (Some \<lparr>errorMsg = ''c : should not be an empty array'', errorCode = 1\<rparr>)],
        optional = False\<rparr>] \<and>
   all_pass sample_library [\<lparr>field = ''a'', items = [Validator Exists (Some \<lparr>errorMsg = ''a : is mandatory'', errorCode = 0\<rparr>),
        Validator NotEmpty (Some \<lparr>errorMsg = ''a : should not be empty'', errorCode = 1\<rparr>),
        Validator (Custom ArrayNotEmpty) (Some \<lparr>errorMsg = ''a : should not be an empty array'', errorCode = 1\<rparr>)],
        optional = False\<rparr>] (JObj [(''body'', JObj [(''a'', JStr ''x''), (''b'', JNum 5)])]) \<and>
   select sample_library ''b'' (input_after sample_library [\<lparr>field = ''a'', items = [Validator Exists (Some \<lparr>errorMsg = ''a : is mandatory'', errorCode = 0\<rparr>),
        Validator NotEmpty (Some \<lparr>errorMsg = ''a : should not be empty'', errorCode = 1\<rparr>),
        Validator (Custom ArrayNotEmpty) (Some \<lparr>errorMsg = ''a : should not be an empty array'', errorCode = 1\<rparr>)],
        optional = False\<rparr>] (JObj [(''body'', JObj [(''a'', JStr ''x''), (''b'', JNum 5)])])) = [JNum 5] \<and>
   fst (run_items sample_library (items \<lparr>field = ''b'', items = [Validator Exists (Some \<lparr>errorMsg = ''b : is mandatory'', errorCode = 0\<rparr>),
        Validator NotEmpty (Some \<lparr>errorMsg = ''b : should not be empty'', errorCode = 1\<rparr>),
        Validator (Custom ArrayNotEmpty) (Some \<lparr>errorMsg = ''b : should not be an empty array'', errorCode = 1\<rparr>),
        Sanitizer TrimText,
        Validator IsString (Some \<lparr>errorMsg = ''b should be string'', errorCode = 2\<rparr>)],
        optional = False\<rparr>) (JNum 5)) = [Some \<lparr>errorMsg = ''b should be string'', errorCode = 2\<rparr>] \<and>
   expressRuleBuilder sample_library (JObj [(''a'', JObj [(''required'', JBool True)]),
       (''b'', JObj [(''required'', JBool True), (''dataType'', JStr ''string'')]),
       (''c'', JObj [(''required'', JBool True)])]) (JObj [(''body'', JObj [(''a'', JStr ''x''), (''b'', JNum 5)])]) [] = Inr (''b should be string'', (JObj [(''body'', JObj [(''a'', JStr ''x''), (''b'', JNum 5)])]))"
proof -
  have accepted: "validateSchema (JObj [(''/r'', (JObj [(''a'', JObj [(''required'', JBool True)]),
       (''b'', JObj [(''required'', JBool True), (''dataType'', JStr ''string'')]),
       (''c'', JObj [(''required'', JBool True)])]))])"
    by code_simp
  have checks: "field_checks (JObj [(''a'', JObj [(''required'', JBool True)]),
       (''b'', JObj [(''required'', JBool True), (''dataType'', JStr ''string'')]),
       (''c'', JObj [(''required'', JBool True)])]) [] =
     map Inr [\<lparr>field = ''a'', items = [Validator Exists (Some \<lparr>errorMsg = ''a : is mandatory'', errorCode = 0\<rparr>),
        Validator NotEmpty (Some \<lparr>errorMsg = ''a : should not be empty'', errorCode = 1\<rparr>),
        Validator (Custom ArrayNotEmpty) (Some \<lparr>errorMsg = ''a : should not be an empty array'', errorCode = 1\<rparr>)],
        optional = False\<rparr>] @
     Inr \<lparr>field = ''b'', items = [Validator Exists (Some \<lparr>errorMsg = ''b : is mandatory'', errorCode = 0\<rparr>),
        Validator NotEmpty (Some \<lparr>errorMsg = ''b : should not be empty'', errorCode = 1\<rparr>),
        Validator (Custom ArrayNotEmpty) (Some \<lparr>errorMsg = ''b : should not be an empty array'', errorCode = 1\<rparr>),
        Sanitizer TrimText,
        Validator IsString (Some \<lparr>errorMsg = ''b should be string'', errorCode = 2\<rparr>)],
        optional = False\<rparr> #
     [Inr \<lparr>field = ''c'', items = [Validator Exists (Some \<lparr>errorMsg = ''c : is mandatory'', errorCode = 0\<rparr>),
        Validator NotEmpty (Some \<lparr>errorMsg = ''c : should not be empty'', errorCode = 1\<rparr>),
        Validator (Custom ArrayNotEmpty) (Some \<lparr>errorMsg = ''c : should not be an empty array'', errorCode = 1\<rparr>)],
        optional = False\<rparr>]"
    by code_simp
  have passing: "all_pass sample_library [\<lparr>field = ''a'', items = [Validator Exists (Some \<lparr>errorMsg = ''a : is mandatory'', errorCode = 0\<rparr>),
        Validator NotEmpty (Some \<lparr>errorMsg = ''a : should not be empty'', errorCode = 1\<rparr>),
        Validator (Custom ArrayNotEmpty) (Some \<lparr>errorMsg = ''a : should not be an empty array'', errorCode = 1\<rparr>)],
        optional = False\<rparr>] (JObj [(''body'', JObj [(''a'', JStr ''x''), (''b'', JNum 5)])])"
    by code_simp
  have reported: "fst (run sample_library \<lparr>field = ''b'', items = [Validator Exists (Some \<lparr>errorMsg = ''b : is mandatory'', errorCode = 0\<rparr>),
        Validator NotEmpty (Some \<lparr>errorMsg = ''b : should not be empty'', errorCode = 1\<rparr>),
        Validator (Custom ArrayNotEmpty) (Some \<lparr>errorMsg = ''b : should not be an empty array'', errorCode = 1\<rparr>),
        Sanitizer TrimText,
        Validator IsString (Some \<lparr>errorMsg = ''b should be string'', errorCode = 2\<rparr>)],
        optional = False\<rparr> (input_after sample_library [\<lparr>field = ''a'', items = [Validator Exists (Some \<lparr>errorMsg = ''a : is mandatory'', errorCode = 0\<rparr>),
        Validator NotEmpty (Some \<lparr>errorMsg = ''a : should not be empty'', errorCode = 1\<rparr>),
        Validator (Custom ArrayNotEmpty) (Some \<lparr>errorMsg = ''a : should not be an empty array'', errorCode = 1\<rparr>)],
        optional = False\<rparr>] (JObj [(''body'', JObj [(''a'', JStr ''x''), (''b'', JNum 5)])]))) =
      [Some \<lparr>errorMsg = ''b should be string'', errorCode = 2\<rparr>]"
    by code_simp
  have left: "snd (run sample_library \<lparr>field = ''b'', items = [Validator Exists (Some \<lparr>errorMsg = ''b : is mandatory'', errorCode = 0\<rparr>),
        Validator NotEmpty (Some \<lparr>errorMsg = ''b : should not be empty'', errorCode = 1\<rparr>),
        Validator (Custom ArrayNotEmpty) (Some \<lparr>errorMsg = ''b : should not be an empty array'', errorCode = 1\<rparr>),
        Sanitizer TrimText,
        Validator IsString (Some \<lparr>errorMsg = ''b should be string'', errorCode = 2\<rparr>)],
        optional = False\<rparr> (input_after sample_library [\<lparr>field = ''a'', items = [Validator Exists (Some \<lparr>errorMsg = ''a : is mandatory'', errorCode = 0\<rparr>),
        Validator NotEmpty (Some \<lparr>errorMsg = ''a : should not be empty'', errorCode = 1\<rparr>),
        Validator (Custom ArrayNotEmpty) (Some \<lparr>errorMsg = ''a : should not be an empty array'', errorCode = 1\<rparr>)],
        optional = False\<rparr>] (JObj [(''body'', JObj [(''a'', JStr ''x''), (''b'', JNum 5)])]))) = (JObj [(''body'', JObj [(''a'', JStr ''x''), (''b'', JNum 5)])])"
    by code_simp
  have selected: "select sample_library (field \<lparr>field = ''b'', items = [Validator Exists (Some \<lparr>errorMsg = ''b : is mandatory'', errorCode = 0\<rparr>),
        Validator NotEmpty (Some \<lparr>errorMsg = ''b : should not be empty'', errorCode = 1\<rparr>),
        Validator (Custom ArrayNotEmpty) (Some \<lparr>errorMsg = ''b : should not be an empty array'', errorCode = 1\<rparr>),
        Sanitizer TrimText,
        Validator IsString (Some \<lparr>errorMsg = ''b should be string'', errorCode = 2\<rparr>)],
        optional = False\<rparr>) (input_after sample_library [\<lparr>field = ''a'', items = [Validator Exists (Some \<lparr>errorMsg = ''a : is mandatory'', errorCode = 0\<rparr>),
        Validator NotEmpty (Some \<lparr>errorMsg = ''a : should not be empty'', errorCode = 1\<rparr>),
        Validator (Custom ArrayNotEmpty) (Some \<lparr>errorMsg = ''a : should not be an empty array'', errorCode = 1\<rparr>)],
        optional = False\<rparr>] (JObj [(''body'', JObj [(''a'', JStr ''x''), (''b'', JNum 5)])])) = [JNum 5]"
    by code_simp
  from reported have failing: "fst (run sample_library \<lparr>field = ''b'', items = [Validator Exists (Some \<lparr>errorMsg = ''b : is mandatory'', errorCode = 0\<rparr>),
        Validator NotEmpty (Some \<lparr>errorMsg = ''b : should not be empty'', errorCode = 1\<rparr>),
        Validator (Custom ArrayNotEmpty) (Some \<lparr>errorMsg = ''b : should not be an empty array'', errorCode = 1\<rparr>),
        Sanitizer TrimText,
        Validator IsString (Some \<lparr>errorMsg = ''b should be string'', errorCode = 2\<rparr>)],
        optional = False\<rparr> (input_after sample_library [\<lparr>field = ''a'', items = [Validator Exists (Some \<lparr>errorMsg = ''a : is mandatory'', errorCode = 0\<rparr>),
        Validator NotEmpty (Some \<lparr>errorMsg = ''a : should not be empty'', errorCode = 1\<rparr>),
        Validator (Custom ArrayNotEmpty) (Some \<lparr>errorMsg = ''a : should not be an empty array'', errorCode = 1\<rparr>)],
        optional = False\<rparr>] (JObj [(''body'', JObj [(''a'', JStr ''x''), (''b'', JNum 5)])]))) \<noteq> []"
    by simp
  from first_failing_field_reported [OF checks passing failing] obtain es1 m es2 where
    h: "fst (run sample_library \<lparr>field = ''b'', items = [Validator Exists (Some \<lparr>errorMsg = ''b : is mandatory'', errorCode = 0\<rparr>),
        Validator NotEmpty (Some \<lparr>errorMsg = ''b : should not be empty'', errorCode = 1\<rparr>),
        Validator (Custom ArrayNotEmpty) (Some \<lparr>errorMsg = ''b : should not be an empty array'', errorCode = 1\<rparr>),
        Sanitizer TrimText,
        Validator IsString (Some \<lparr>errorMsg = ''b should be string'', errorCode = 2\<rparr>)],
        optional = False\<rparr> (input_after sample_library [\<lparr>field = ''a'', items = [Validator Exists (Some \<lparr>errorMsg = ''a : is mandatory'', errorCode = 0\<rparr>),
        Validator NotEmpty (Some \<lparr>errorMsg = ''a : should not be empty'', errorCode = 1\<rparr>),
        Validator (Custom ArrayNotEmpty) (Some \<lparr>errorMsg = ''a : should not be an empty array'', errorCode = 1\<rparr>)],
        optional = False\<rparr>] (JObj [(''body'', JObj [(''a'', JStr ''x''), (''b'', JNum 5)])]))) = es1 @ Some m # es2"
       "expressRuleBuilder sample_library (JObj [(''a'', JObj [(''required'', JBool True)]),
       (''b'', JObj [(''required'', JBool True), (''dataType'', JStr ''string'')]),
       (''c'', JObj [(''required'', JBool True)])]) (JObj [(''body'', JObj [(''a'', JStr ''x''), (''b'', JNum 5)])]) [] =
          Inr (errorMsg m, snd (run sample_library \<lparr>field = ''b'', items = [Validator Exists (Some \<lparr>errorMsg = ''b : is mandatory'', errorCode = 0\<rparr>),
        Validator NotEmpty (Some \<lparr>errorMsg = ''b : should not be empty'', errorCode = 1\<rparr>),
        Validator (Custom ArrayNotEmpty) (Some \<lparr>errorMsg = ''b : should not be an empty array'', errorCode = 1\<rparr>),
        Sanitizer TrimText,
        Validator IsString (Some \<lparr>errorMsg = ''b should be string'', errorCode = 2\<rparr>)],
        optional = False\<rparr> (input_after sample_library [\<lparr>field = ''a'', items = [Validator Exists (Some \<lparr>errorMsg = ''a : is mandatory'', errorCode = 0\<rparr>),
        Validator NotEmpty (Some \<lparr>errorMsg = ''a : should not be empty'', errorCode = 1\<rparr>),
        Validator (Custom ArrayNotEmpty) (Some \<lparr>errorMsg = ''a : should not be an empty array'', errorCode = 1\<rparr>)],
        optional = False\<rparr>] (JObj [(''body'', JObj [(''a'', JStr ''x''), (''b'', JNum 5)])]))))"
       "\<forall>v. select sample_library (field \<lparr>field = ''b'', items = [Validator Exists (Some \<lparr>errorMsg = ''b : is mandatory'', errorCode = 0\<rparr>),
        Validator NotEmpty (Some \<lparr>errorMsg = ''b : should not be empty'', errorCode = 1\<rparr>),
        Validator (Custom ArrayNotEmpty) (Some \<lparr>errorMsg = ''b : should not be an empty array'', errorCode = 1\<rparr>),
        Sanitizer TrimText,
        Validator IsString (Some \<lparr>errorMsg = ''b should be string'', errorCode = 2\<rparr>)],
        optional = False\<rparr>) (input_after sample_library [\<lparr>field = ''a'', items = [Validator Exists (Some \<lparr>errorMsg = ''a : is mandatory'', errorCode = 0\<rparr>),
        Validator NotEmpty (Some \<lparr>errorMsg = ''a : should not be empty'', errorCode = 1\<rparr>),
        Validator (Custom ArrayNotEmpty) (Some \<lparr>errorMsg = ''a : should not be an empty array'', errorCode = 1\<rparr>)],
        optional = False\<rparr>] (JObj [(''body'', JObj [(''a'', JStr ''x''), (''b'', JNum 5)])])) = [v] \<longrightarrow>
            fst (run_items sample_library (items \<lparr>field = ''b'', items = [Validator Exists (Some \<lparr>errorMsg = ''b : is mandatory'', errorCode = 0\<rparr>),
        Validator NotEmpty (Some \<lparr>errorMsg = ''b : should not be empty'', errorCode = 1\<rparr>),
        Validator (Custom ArrayNotEmpty) (Some \<lparr>errorMsg = ''b : should not be an empty array'', errorCode = 1\<rparr>),
        Sanitizer TrimText,
        Validator IsString (Some \<lparr>errorMsg = ''b should be string'', errorCode = 2\<rparr>)],
        optional = False\<rparr>) v) = es1 @ Some m # es2"
    by blast
  from h(1) reported have "es1 @ Some m # es2 = [Some \<lparr>errorMsg = ''b should be string'', errorCode = 2\<rparr>]"
    by simp
  then have m: "es1 = []" "m = \<lparr>errorMsg = ''b should be string'', errorCode = 2\<rparr>" "es2 = []"
    by (auto simp: append_eq_Cons_conv)
  from h(3) selected m have "fst (run_items sample_library (items \<lparr>field = ''b'', items = [Validator Exists (Some \<lparr>errorMsg = ''b : is mandatory'', errorCode = 0\<rparr>),
        Validator NotEmpty (Some \<lparr>errorMsg = ''b : should not be empty'', errorCode = 1\<rparr>),
        Validator (Custom ArrayNotEmpty) (Some \<lparr>errorMsg = ''b : should not be an empty array'', errorCode = 1\<rparr>),
        Sanitizer TrimText,
        Validator IsString (Some \<lparr>errorMsg = ''b should be string'', errorCode = 2\<rparr>)],
        optional = False\<rparr>) (JNum 5)) = [Some \<lparr>errorMsg = ''b should be string'', errorCode = 2\<rparr>]"
    by simp
  moreover from h(2) m(2) left have "expressRuleBuilder sample_library (JObj [(''a'', JObj [(''required'', JBool True)]),
       (''b'', JObj [(''required'', JBool True), (''dataType'', JStr ''string'')]),
       (''c'', JObj [(''required'', JBool True)])]) (JObj [(''body'', JObj [(''a'', JStr ''x''), (''b'', JNum 5)])]) [] =
      Inr (''b should be string'', (JObj [(''body'', JObj [(''a'', JStr ''x''), (''b'', JNum 5)])]))"
    by simp
  moreover from selected have "select sample_library ''b'' (input_after sample_library [\<lparr>field = ''a'', items = [Validator Exists (Some \<lparr>errorMsg = ''a : is mandatory'', errorCode = 0\<rparr>),
        Validator NotEmpty (Some \<lparr>errorMsg = ''a : should not be empty'', errorCode = 1\<rparr>),
        Validator (Custom ArrayNotEmpty) (Some \<lparr>errorMsg = ''a : should not be an empty array'', errorCode = 1\<rparr>)],
        optional = False\<rparr>] (JObj [(''body'', JObj [(''a'', JStr ''x''), (''b'', JNum 5)])])) = [JNum 5]"
    by simp
  ultimately show ?thesis using accepted checks passing by blast
qed

text \<open>
  Claim C1 as stated fails. The meta-validator accepts the schema. Field \<open>a\<close> comes
  first, must be a string and is the number 5, a failure of code 2; field \<open>b\<close> is
  required and absent, a failure of code 0. The message reported is the one of field
  \<open>a\<close>.
\<close>

theorem lowest_code_across_fields_counterexample:
  "validateSchema (JObj [(''/r'', (JObj [(''a'', JObj [(''required'', JBool True), (''dataType'', JStr ''string'')]),
       (''b'', JObj [(''required'', JBool True)])]))]) \<and>
   (case ruleChain ''b'' (JObj [(''required'', JBool True)]) of
      Inl e \<Rightarrow> []
    | Inr c \<Rightarrow> fst (run sample_library c (JObj [(''body'', JObj [(''a'', JNum 5)])]))) =
     [Some \<lparr>errorMsg = ''b : is mandatory'', errorCode = 0\<rparr>,
      Some \<lparr>errorMsg = ''b : should not be empty'', errorCode = 1\<rparr>] \<and>
   (case ruleChain ''a'' (JObj [(''required'', JBool True), (''dataType'', JStr ''string'')]) of
      Inl e \<Rightarrow> []
    | Inr c \<Rightarrow> fst (run sample_library c (JObj [(''body'', JObj [(''a'', JNum 5)])]))) =
     [Some \<lparr>errorMsg = ''a should be string'', errorCode = 2\<rparr>] \<and>
   expressRuleBuilder sample_library (JObj [(''a'', JObj [(''required'', JBool True), (''dataType'', JStr ''string'')]),
       (''b'', JObj [(''required'', JBool True)])]) (JObj [(''body'', JObj [(''a'', JNum 5)])]) [] =
     Inr (''a should be string'', (JObj [(''body'', JObj [(''a'', JNum 5)])]))"
  by code_simp

section \<open>Trimming\<close>




section \<open>The text of a range failure\<close>

lemma truthy_bound_given:
  assumes "has_key k rule \<longrightarrow> typeof (get_prop rule k) = ''number''" and "k \<noteq> ''length''"
  shows "truthy (get_prop rule k) = bound_given rule k"
proof (cases "has_key k rule")
  case True
  with assms(1) obtain n where "get_prop rule k = JNum n"
    by (cases "get_prop rule k") auto
  with True show ?thesis by (simp add: bound_given_def)
next
  case False
  with assms(2) have "map_of (own_entries rule) k = None"
    by (simp add: has_key_def map_of_eq_None_iff)
  with assms(2) have "get_prop rule k = JUndefined"
    by (simp add: get_prop_def)
  with False show ?thesis by (simp add: bound_given_def)
qed

text \<open>
  The text of a range failure of a compiled rule, for a rule whose bounds are numbers
  where it has them, as the meta-validator demands. The text is made by tests of
  truthiness on the bounds. It names both bounds, as "between MIN and MAX", exactly
  when the rule has both and neither is zero; it is "greater than or equal to MIN" when
  the rule has a lower bound that is not zero and no upper bound or the upper bound
  zero; in every other case it is "less than or equal to MAX".
\<close>

lemma range_message_text:
  assumes "ruleChain f rule = Inr c"
    and "Validator v (Some m) \<in> set (items c)"
    and "errorCode m = code_of MIN_MAX_ERROR"
    and "has_key ''min'' rule \<longrightarrow> typeof (get_prop rule ''min'') = ''number''"
    and "has_key ''max'' rule \<longrightarrow> typeof (get_prop rule ''max'') = ''number''"
  shows "errorMsg m =
     (if bound_given rule ''min'' \<and> bound_given rule ''max''
        then f @ '' should be in between '' @ js_to_string (get_prop rule ''min'') @
             '' and '' @ js_to_string (get_prop rule ''max'')
      else if bound_given rule ''min''
        then f @ '' should be in greater than or equal to '' @ js_to_string (get_prop rule ''min'')
      else f @ '' should be in less than or equal to '' @ js_to_string (get_prop rule ''max''))"
proof -
  let ?text = "min_max_text f (get_prop rule ''min'') (get_prop rule ''max'')"
  have "all_messages (\<lambda>m. errorCode m = 4 \<longrightarrow> errorMsg m = ?text) (items c)"
    using assms(1)
  proof (rule ruleChain_all)
    fix kind extra m'
    assume "may_report rule kind extra" and "message_for f kind extra = Inr m'"
    then show "errorCode m' = 4 \<longrightarrow> errorMsg m' = ?text"
      using message_for_props(1) [of f kind extra m']
      by (cases kind) (auto simp: message_for_min_max)
  qed
  with assms(2,3) have "errorMsg m = ?text"
    by (auto simp: all_messages_def)
  moreover have "truthy (get_prop rule ''min'') = bound_given rule ''min''"
    using assms(4) by (rule truthy_bound_given) simp
  moreover have "truthy (get_prop rule ''max'') = bound_given rule ''max''"
    using assms(5) by (rule truthy_bound_given) simp
  ultimately show ?thesis by (simp add: min_max_text_def)
qed

text \<open>
  The example of the specification: a required integer \<open>age\<close> with the lower bound 18.
\<close>

lemma lower_bound_message_example:
  "ruleChain ''age'' (JObj [(''required'', JBool True), (''dataType'', JStr ''int''),
     (''min'', JNum 18)]) =
     Inr \<lparr>field = ''age'', items = [Validator Exists (Some \<lparr>errorMsg = ''age : is mandatory'', errorCode = 0\<rparr>),
       Validator NotEmpty (Some \<lparr>errorMsg = ''age : should not be empty'', errorCode = 1\<rparr>),
       Validator (Custom ArrayNotEmpty) (Some \<lparr>errorMsg = ''age : should not be an empty array'', errorCode = 1\<rparr>),
       Sanitizer TrimText,
       Validator (IsInt None) (Some \<lparr>errorMsg = ''age should be int'', errorCode = 2\<rparr>),
       Sanitizer ToInt,
       Validator (IsInt (Some (Options (Some (JNum 18)) None))) (Some \<lparr>errorMsg = ''age should be in greater than or equal to 18'', errorCode = 4\<rparr>)],
       optional = False\<rparr>"
  by code_simp

section \<open>Where the program departs from its own documentation\<close>

text \<open>
  Claim C2, at an input where the program breaks it. The README keeps range checks to
  the data types \<open>int\<close> and \<open>float\<close>, and the condition in the rule compiler names
  them, but a lower bound alone satisfies that condition. The meta-validator accepts
  the rule, a string with a lower bound. The compiled chain holds a range check with
  the message of a range failure; with a library that takes the text \<open>abc\<close> for a
  string and for nothing else, the request is answered with that message.
\<close>

theorem range_check_on_string_rule:
  "validateSchema (JObj [(''/r'', JObj [(''f'', JObj [(''dataType'', JStr ''string''),
    (''min'', JNum 5)])])]) \<and>
   ruleChain ''f'' (JObj [(''dataType'', JStr ''string''), (''min'', JNum 5)]) =
     Inr \<lparr>field = ''f'', items = [Sanitizer TrimText,
       Validator IsString (Some \<lparr>errorMsg = ''f should be string'', errorCode = 2\<rparr>),
       Validator (IsFloat (Some (Options (Some (JNum 5)) None))) (Some \<lparr>errorMsg = ''f should be in greater than or equal to 5'', errorCode = 4\<rparr>)],
       optional = True\<rparr> \<and>
   expressRuleBuilder (sample_library\<lparr>holds := (\<lambda>val v. val = IsString)\<rparr>)
     (JObj [(''f'', JObj [(''dataType'', JStr ''string''), (''min'', JNum 5)])])
     (JObj [(''body'', JObj [(''f'', JStr ''abc'')])]) [] =
     Inr (''f should be in greater than or equal to 5'', JObj [(''body'', JObj [(''f'', JStr ''abc'')])])"
  by code_simp

theorem range_check_on_string_rule_witness:
  "validateRequest (sample_library\<lparr>holds := (\<lambda>val v. val = IsString)\<rparr>)
     [\<lparr>regexp = (\<lambda>u. u = ''/r''), rules = JObj [(''f'', JObj [(''dataType'', JStr ''string''),
       (''min'', JNum 5)])]\<rparr>]
     (RequestValidator ''/r?x=1'')
     \<lparr>req_body = JObj [(''f'', JStr ''abc'')], req_query = JObj [], req_params = JObj []\<rparr> =
     Status400 ''f should be in greater than or equal to 5''"
  using range_check_on_string_rule
  by (simp add: validateRequest_def RequestValidator_def merged_input_def spread_def)

text \<open>
  Claim C3, at an input where the program breaks it. The meta-validator accepts the
  rule, a required field with a list of allowed values. The rule compiler reads the
  property \<^verbatim>\<open>allowedAvalues\<close>, which the rule does not have: the compiled chain is
  the three presence checks and no membership check, and a value outside the list
  passes.
\<close>

theorem allowed_values_not_checked:
  "validateSchema (JObj [(''/r'', JObj [(''color'', JObj [(''required'', JBool True),
    (''allowedValues'', JArr [JStr ''red''])])])]) \<and>
   ruleChain ''color'' (JObj [(''required'', JBool True),
     (''allowedValues'', JArr [JStr ''red''])]) =
     Inr \<lparr>field = ''color'', items = [Validator Exists (Some \<lparr>errorMsg = ''color : is mandatory'', errorCode = 0\<rparr>),
       Validator NotEmpty (Some \<lparr>errorMsg = ''color : should not be empty'', errorCode = 1\<rparr>),
       Validator (Custom ArrayNotEmpty) (Some \<lparr>errorMsg = ''color : should not be an empty array'', errorCode = 1\<rparr>)],
       optional = False\<rparr> \<and>
   expressRuleBuilder sample_library
     (JObj [(''color'', JObj [(''required'', JBool True),
       (''allowedValues'', JArr [JStr ''red''])])])
     (JObj [(''body'', JObj [(''color'', JStr ''blue'')])]) [] =
     Inr ([], JObj [(''body'', JObj [(''color'', JStr ''blue'')])])"
  by code_simp

theorem allowed_values_not_checked_witness:
  "validateRequest sample_library
     [\<lparr>regexp = (\<lambda>u. u = ''/r''), rules = JObj [(''color'', JObj [(''required'', JBool True),
       (''allowedValues'', JArr [JStr ''red''])])]\<rparr>]
     (RequestValidator ''/r'')
     \<lparr>req_body = JObj [(''color'', JStr ''blue'')], req_query = JObj [], req_params = JObj []\<rparr> = Next"
  using allowed_values_not_checked
  by (simp add: validateRequest_def RequestValidator_def merged_input_def spread_def get_prop_def)

text \<open>
  Claim C4, at an input where the program breaks it. The node lists its allowed values
  first. The meta-validator takes it for a rule and accepts the schema. The rule compiler looks at
  the value of the first key, an array, and descends into the node as into a subtree:
  it compiles the two properties of the rule as if they were fields, and no check for
  the field itself. A request without the required field is handed on.
\<close>

theorem classifiers_disagree:
  "isValidationRule (JObj [(''allowedValues'', JArr [JStr ''red'', JStr ''green'']),
    (''required'', JBool True)]) \<and>
   validateSchema (JObj [(''/r'', JObj [(''size'', JObj [(''allowedValues'', JArr [JStr ''red'', JStr ''green'']),
     (''required'', JBool True)])])]) \<and>
   first_key_value (JObj [(''allowedValues'', JArr [JStr ''red'', JStr ''green'']),
     (''required'', JBool True)]) = Inr (JArr [JStr ''red'', JStr ''green'']) \<and>
   typeof (JArr [JStr ''red'', JStr ''green'']) = ''object'' \<and>
   field_checks (JObj [(''size'', JObj [(''allowedValues'', JArr [JStr ''red'', JStr ''green'']),
     (''required'', JBool True)])]) [] =
     [Inr \<lparr>field = ''size.allowedValues'', items = [], optional = True\<rparr>,
      Inr \<lparr>field = ''size.required'', items = [], optional = True\<rparr>] \<and>
   expressRuleBuilder sample_library
     (JObj [(''size'', JObj [(''allowedValues'', JArr [JStr ''red'', JStr ''green'']),
       (''required'', JBool True)])])
     (JObj [(''body'', JObj [])]) [] =
     Inr ([], JObj [(''body'', JObj [])])"
  by code_simp

theorem classifiers_disagree_witness:
  "validateRequest sample_library
     [\<lparr>regexp = (\<lambda>u. u = ''/r''), rules = JObj [(''size'', JObj [(''allowedValues'', JArr [JStr ''red'', JStr ''green'']),
       (''required'', JBool True)])]\<rparr>]
     (RequestValidator ''/r'')
     \<lparr>req_body = JObj [], req_query = JObj [], req_params = JObj []\<rparr> = Next"
  using classifiers_disagree
  by (simp add: validateRequest_def RequestValidator_def merged_input_def spread_def get_prop_def)

text \<open>
  Claim C5, at an input where the program breaks it. The data type of the rule is a
  number. The meta-validator tests the data type against its list only when it is a
  string, while it reports every other property of the wrong type: it records no
  error and accepts the schema. Compiling the rule then raises, for every request to
  the route.
\<close>

theorem non_string_dataType_accepted:
  "schemaValidator (JObj [(''/r'', JObj [(''f'', JObj [(''dataType'', JNum 5)])])]) = (True, []) \<and>
   ruleChain ''f'' (JObj [(''dataType'', JNum 5)]) = Inl TypeError \<and>
   expressRuleBuilder sample_library
     (JObj [(''f'', JObj [(''dataType'', JNum 5)])])
     (JObj [(''body'', JObj [(''f'', JStr ''int'')])]) [] = Inl TypeError"
  by code_simp

theorem non_string_dataType_accepted_witness:
  "validateSchema (JObj [(''/r'', JObj [(''f'', JObj [(''dataType'', JNum 5)])])]) \<and>
   validateRequest sample_library
     [\<lparr>regexp = (\<lambda>u. u = ''/r''), rules = JObj [(''f'', JObj [(''dataType'', JNum 5)])]\<rparr>]
     (RequestValidator ''/r'')
     \<lparr>req_body = JObj [(''f'', JStr ''int'')], req_query = JObj [], req_params = JObj []\<rparr> = Status400_caught TypeError"
  using non_string_dataType_accepted
  by (simp add: validateSchema_def validateRequest_def RequestValidator_def merged_input_def spread_def)

text \<open>
  Claim C8, at an input where the program breaks it. The README gives \<open>min\<close> and \<open>max\<close>
  as the least and the greatest value of an \<open>int\<close> or a \<open>float\<close>. The meta-validator
  accepts the rule, an integer with the lower bound 0 and the upper bound 10, and the
  rule has both bounds. The tests on the bounds are tests of truthiness, which the
  number 0 fails: the range check of the compiled chain is given the upper bound and no
  lower bound, and its message is the one for an upper bound alone. With a library that
  takes the text \<open>15\<close> for an integer and not for one within the bounds, the request is
  answered with that message and not with the one that names both bounds.
\<close>

theorem zero_lower_bound_dropped:
  "validateSchema (JObj [(''/r'', (JObj [(''f'', JObj [(''dataType'', JStr ''int''), (''min'', JNum 0),
       (''max'', JNum 10)])]))]) \<and>
   has_key ''min'' (JObj [(''dataType'', JStr ''int''), (''min'', JNum 0), (''max'', JNum 10)]) \<and>
   has_key ''max'' (JObj [(''dataType'', JStr ''int''), (''min'', JNum 0), (''max'', JNum 10)]) \<and>
   ruleChain ''f'' (JObj [(''dataType'', JStr ''int''), (''min'', JNum 0), (''max'', JNum 10)]) =
     Inr \<lparr>field = ''f'', items = [Sanitizer TrimText,
       Validator (IsInt None) (Some \<lparr>errorMsg = ''f should be int'', errorCode = 2\<rparr>),
       Sanitizer ToInt,
       Validator (IsInt (Some (Options None (Some (JNum 10))))) (Some \<lparr>errorMsg = ''f should be in less than or equal to 10'', errorCode = 4\<rparr>)],
       optional = True\<rparr> \<and>
   expressRuleBuilder (sample_library\<lparr>holds := (\<lambda>val v. val = IsInt None)\<rparr>)
     (JObj [(''f'', JObj [(''dataType'', JStr ''int''), (''min'', JNum 0),
       (''max'', JNum 10)])])
     (JObj [(''body'', JObj [(''f'', JStr ''15'')])]) [] =
     Inr (''f should be in less than or equal to 10'', (JObj [(''body'', JObj [(''f'', JStr ''15'')])]))"
  by code_simp

theorem zero_lower_bound_dropped_witness:
  "validateRequest (sample_library\<lparr>holds := (\<lambda>val v. val = IsInt None)\<rparr>)
     [\<lparr>regexp = (\<lambda>u. u = ''/r''), rules = (JObj [(''f'', JObj [(''dataType'', JStr ''int''), (''min'', JNum 0),
       (''max'', JNum 10)])])\<rparr>]
     (RequestValidator ''/r'')
     \<lparr>req_body = JObj [(''f'', JStr ''15'')], req_query = JObj [], req_params = JObj []\<rparr> =
     Status400 ''f should be in less than or equal to 10''"
  using zero_lower_bound_dropped
  by (simp add: validateRequest_def RequestValidator_def merged_input_def spread_def)

end
